theory Spec2Isabelle
  imports Complex_Main "HOL-Library.Word"
begin

unbundle bit_operations_syntax

section \<open>Driver for the BMI160 + BMM150 inertial measurement unit\<close>

text \<open>
  A shallow embedding of \<^verbatim>\<open>IMU_BMI160_BMM150.cpp\<close>. The file-scope statics of the
  driver and the function-scope statics of \<^verbatim>\<open>IMU_readDataWithFrequency\<close> form one
  record that every operation takes and returns. The two-wire bus is the environment:
  the calls into the Wire library, \<^verbatim>\<open>delay\<close> and \<^verbatim>\<open>millis\<close> are answered by an
  arbitrary bus over an arbitrary hardware state, and every theorem quantified over
  the bus holds for all hardware behaviours. Calls of \<^verbatim>\<open>Serial\<close> and
  \<^verbatim>\<open>Wire.begin()\<close> have no effect on the driver and are left out.
\<close>

type_synonym u8 = "8 word"
type_synonym i16 = "16 word"
type_synonym i32 = "32 word"
type_synonym u32 = "32 word"

subsection \<open>Register map\<close>

abbreviation (input) BMI160_ADDR_68 :: u8 where "BMI160_ADDR_68 \<equiv> 0x68"
abbreviation (input) BMI160_ADDR_69 :: u8 where "BMI160_ADDR_69 \<equiv> 0x69"
abbreviation (input) BMI160_CHIP_ID :: u8 where "BMI160_CHIP_ID \<equiv> 0x00"
abbreviation (input) BMI160_CMD :: u8 where "BMI160_CMD \<equiv> 0x7E"
abbreviation (input) BMI160_ACC_CONF :: u8 where "BMI160_ACC_CONF \<equiv> 0x40"
abbreviation (input) BMI160_ACC_RANGE :: u8 where "BMI160_ACC_RANGE \<equiv> 0x41"
abbreviation (input) BMI160_GYR_CONF :: u8 where "BMI160_GYR_CONF \<equiv> 0x42"
abbreviation (input) BMI160_GYR_RANGE :: u8 where "BMI160_GYR_RANGE \<equiv> 0x43"
abbreviation (input) BMI160_MAG_IF_0 :: u8 where "BMI160_MAG_IF_0 \<equiv> 0x4B"
abbreviation (input) BMI160_MAG_IF_1 :: u8 where "BMI160_MAG_IF_1 \<equiv> 0x4C"
abbreviation (input) BMI160_MAG_IF_2 :: u8 where "BMI160_MAG_IF_2 \<equiv> 0x4D"
abbreviation (input) BMI160_MAG_IF_3 :: u8 where "BMI160_MAG_IF_3 \<equiv> 0x4E"
abbreviation (input) BMI160_MAG_IF_4 :: u8 where "BMI160_MAG_IF_4 \<equiv> 0x4F"
abbreviation (input) BMI160_MAG_CONF :: u8 where "BMI160_MAG_CONF \<equiv> 0x44"
abbreviation (input) BMI160_DATA_0 :: u8 where "BMI160_DATA_0 \<equiv> 0x04"
abbreviation (input) BMI160_STATUS :: u8 where "BMI160_STATUS \<equiv> 0x1B"
abbreviation (input) BMI160_BMM150_IF :: u8 where "BMI160_BMM150_IF \<equiv> 0x7D"
abbreviation (input) BMI160_CMD_SOFTRESET :: u8 where "BMI160_CMD_SOFTRESET \<equiv> 0xB6"
abbreviation (input) BMI160_CMD_ACC_NORMAL :: u8 where "BMI160_CMD_ACC_NORMAL \<equiv> 0x11"
abbreviation (input) BMI160_CMD_GYR_NORMAL :: u8 where "BMI160_CMD_GYR_NORMAL \<equiv> 0x15"
abbreviation (input) BMI160_CMD_MAG_NORMAL :: u8 where "BMI160_CMD_MAG_NORMAL \<equiv> 0x19"
abbreviation (input) BMM150_CHIP_ID :: u8 where "BMM150_CHIP_ID \<equiv> 0x40"
abbreviation (input) BMM150_POWER :: u8 where "BMM150_POWER \<equiv> 0x4B"
abbreviation (input) BMM150_OPMODE :: u8 where "BMM150_OPMODE \<equiv> 0x4C"
abbreviation (input) BMM150_DATA_X :: u8 where "BMM150_DATA_X \<equiv> 0x42"
abbreviation (input) BMM150_FORCED_MODE :: u8 where "BMM150_FORCED_MODE \<equiv> 0x02"

subsection \<open>Driver state\<close>

text \<open>
  Modelled from the spec: the header \<^verbatim>\<open>IMU_BMI160_BMM150.h\<close> that declares the
  enumeration \<^verbatim>\<open>MagMode\<close> is not among the sources. The spec names the three wiring
  modes Absent, Direct and Bridged; the code calls them \<^verbatim>\<open>NONE\<close>, \<^verbatim>\<open>PRIMARY\<close>
  and \<^verbatim>\<open>SECONDARY\<close>.
\<close>

datatype MagMode = NONE | PRIMARY | SECONDARY

text \<open>
  Modelled from the spec: the structure \<^verbatim>\<open>SensorConfig\<close> is declared in the same
  missing header. The spec lists its four codes (accelerometer output rate and range,
  gyroscope output rate and range); the field names are those of the initialiser of
  \<^verbatim>\<open>config\<close>, and the codes are bytes, as the register writes that take them.
\<close>

record SensorConfig =
  acc_odr :: u8
  acc_range :: u8
  gyr_odr :: u8
  gyr_range :: u8

text \<open>
  The statics of the driver. \<^verbatim>\<open>ACC_LSB\<close> and \<^verbatim>\<open>GYR_LSB\<close> are \<^verbatim>\<open>float\<close>
  variables that only ever receive literals; each is modelled by the rational number
  its literal denotes, and no arithmetic is done on them. The last six fields are
  the \<^verbatim>\<open>static\<close> locals of \<^verbatim>\<open>IMU_readDataWithFrequency\<close>.
\<close>

record driver =
  bmi160_addr :: u8
  bmm150_addr :: u8
  mag_mode :: MagMode
  config :: SensorConfig
  initialized :: bool
  ACC_LSB :: rat
  GYR_LSB :: rat
  last_time :: u32
  acc_sum :: "i32 list"
  gyr_sum :: "i32 list"
  mag_sum :: "i32 list"
  rhall_sum :: i32
  samples :: u32

definition power_on :: driver where
  "power_on =
     \<lparr>bmi160_addr = 0, bmm150_addr = 0, mag_mode = NONE,
      config = \<lparr>acc_odr = 0x28, acc_range = 0x05, gyr_odr = 0x28, gyr_range = 0x00\<rparr>,
      initialized = False, ACC_LSB = 8192, GYR_LSB = 16384 / 1000,
      last_time = 0, acc_sum = [0, 0, 0], gyr_sum = [0, 0, 0], mag_sum = [0, 0, 0],
      rhall_sum = 0, samples = 0\<rparr>"

text \<open>
  The output of one read: the four buffers \<^verbatim>\<open>acc[3]\<close>, \<^verbatim>\<open>gyr[3]\<close>,
  \<^verbatim>\<open>mag[3]\<close> and \<^verbatim>\<open>*rhall\<close> that the caller passes by pointer.
\<close>

record raw_sample =
  acc :: "i16 list"
  gyr :: "i16 list"
  mag :: "i16 list"
  rhall :: i16

subsection \<open>The bus\<close>

text \<open>
  A bus answers the Wire library calls from a hardware state \<open>'h\<close> that it may change:
  \<^item> \<open>wire_transmit addr bytes stop\<close> is
    \<^verbatim>\<open>Wire.beginTransmission(addr); Wire.write(b)\<close> for each byte,
    \<^verbatim>\<open>Wire.endTransmission(stop)\<close>: the status that \<^verbatim>\<open>endTransmission\<close> returns,
    zero for success;
  \<^item> \<open>wire_request addr len ms\<close> is the wait
    \<^verbatim>\<open>start = millis(); received = 0;
    while (millis() - start < ms && received < len) received = Wire.requestFrom(addr, len);\<close>:
    the value of \<^verbatim>\<open>received\<close> when the wait ends (for a length of one the
    condition \<^verbatim>\<open>received == 0\<close> of \<^verbatim>\<open>i2c_device_exists\<close> is the same). The wait
    ends because the clock advances; the model takes its outcome from the bus;
  \<^item> \<open>wire_read\<close> is \<^verbatim>\<open>Wire.read()\<close>, as the byte that is stored;
  \<^item> \<open>bus_delay\<close> and \<open>bus_millis\<close> are \<^verbatim>\<open>delay\<close> and \<^verbatim>\<open>millis\<close>
    (\<^verbatim>\<open>unsigned long\<close>, 32 bits on the boards the Wire library runs on).
\<close>

record 'h bus =
  wire_transmit :: "u8 \<Rightarrow> u8 list \<Rightarrow> bool \<Rightarrow> 'h \<Rightarrow> u8 \<times> 'h"
  wire_request :: "u8 \<Rightarrow> nat \<Rightarrow> nat \<Rightarrow> 'h \<Rightarrow> nat \<times> 'h"
  wire_read :: "'h \<Rightarrow> u8 \<times> 'h"
  bus_delay :: "nat \<Rightarrow> 'h \<Rightarrow> 'h"
  bus_millis :: "'h \<Rightarrow> u32"

text \<open>
  The world is the hardware state together with the history of the helper calls made
  so far, the most recent call first, each with what it returned. The history is a
  record of what the driver did on the bus; the driver never reads it.
  \<open>Probe\<close> is a call of \<^verbatim>\<open>i2c_device_exists\<close> that asks for the identity byte,
  \<open>Ack\<close> one that passes \<^verbatim>\<open>nullptr\<close>.
\<close>

datatype event =
  Probe u8 u8 "u8 option"
  | Ack u8 u8 bool
  | Write u8 u8 u8 bool
  | Read u8 u8 nat "u8 list option"
  | Delay nat

record 'h world =
  hw :: 'h
  history :: "event list"

definition on_hw :: "('h \<Rightarrow> 'a \<times> 'h) \<Rightarrow> 'h world \<Rightarrow> 'a \<times> 'h world" where
  "on_hw f w = (let (r, h) = f (hw w) in (r, w\<lparr>hw := h\<rparr>))"

definition logged :: "event \<Rightarrow> 'h world \<Rightarrow> 'h world" where
  "logged e w = w\<lparr>history := e # history w\<rparr>"

text \<open>
  \<^verbatim>\<open>i2c_device_exists(addr, &chip_id, reg)\<close>: \<open>Some id\<close> when it returns true having
  stored \<open>id\<close>, \<open>None\<close> when it returns false and leaves \<^verbatim>\<open>chip_id\<close> alone.
\<close>

definition i2c_device_exists :: "'h bus \<Rightarrow> u8 \<Rightarrow> u8 \<Rightarrow> 'h world \<Rightarrow> u8 option \<times> 'h world" where
  "i2c_device_exists env addr reg w =
     (let (status, w1) = on_hw (wire_transmit env addr [reg] True) w
      in if status \<noteq> 0 then (None, logged (Probe addr reg None) w1)
         else
           let (status2, w2) = on_hw (wire_transmit env addr [reg] False) w1
           in if status2 \<noteq> 0 then (None, logged (Probe addr reg None) w2)
              else
                let (received, w3) = on_hw (wire_request env addr 1 5) w2
                in if received = 1 then
                     (let (chip_id, w4) = on_hw (wire_read env) w3
                      in (Some chip_id, logged (Probe addr reg (Some chip_id)) w4))
                   else (None, logged (Probe addr reg None) w3))"

text \<open>\<^verbatim>\<open>i2c_device_exists(addr, nullptr, reg)\<close>: the first transmission alone.\<close>

definition i2c_device_exists_nullptr :: "'h bus \<Rightarrow> u8 \<Rightarrow> u8 \<Rightarrow> 'h world \<Rightarrow> bool \<times> 'h world" where
  "i2c_device_exists_nullptr env addr reg w =
     (let (status, w1) = on_hw (wire_transmit env addr [reg] True) w
      in (status = 0, logged (Ack addr reg (status = 0)) w1))"

definition i2c_safe_write :: "'h bus \<Rightarrow> u8 \<Rightarrow> u8 \<Rightarrow> u8 \<Rightarrow> 'h world \<Rightarrow> bool \<times> 'h world" where
  "i2c_safe_write env addr reg val w =
     (let (status, w1) = on_hw (wire_transmit env addr [reg, val] True) w
      in (status = 0, logged (Write addr reg val (status = 0)) w1))"

text \<open>
  The loop \<^verbatim>\<open>for (i = 0; i < len; i++) buf[i] = Wire.read();\<close>, over the list of
  its indices.
\<close>

fun read_bytes :: "'h bus \<Rightarrow> nat list \<Rightarrow> 'h world \<Rightarrow> u8 list \<times> 'h world" where
  "read_bytes env [] w = ([], w)"
| "read_bytes env (i # is) w =
     (let (b, w1) = on_hw (wire_read env) w;
          (bs, w2) = read_bytes env is w1
      in (b # bs, w2))"

text \<open>
  \<^verbatim>\<open>i2c_safe_read(addr, reg, buf, len)\<close>: \<open>Some bytes\<close> when it returns true having
  filled the buffer, \<open>None\<close> when it returns false and leaves the buffer alone.
\<close>

definition i2c_safe_read :: "'h bus \<Rightarrow> u8 \<Rightarrow> u8 \<Rightarrow> nat \<Rightarrow> 'h world \<Rightarrow> u8 list option \<times> 'h world" where
  "i2c_safe_read env addr reg len w =
     (let (found, w0) = i2c_device_exists_nullptr env addr 0x00 w
      in if \<not> found then (None, logged (Read addr reg len None) w0)
         else
           let (status, w1) = on_hw (wire_transmit env addr [reg] False) w0
           in if status \<noteq> 0 then (None, logged (Read addr reg len None) w1)
              else
                let (received, w2) = on_hw (wire_request env addr len 10) w1
                in if received \<noteq> len then (None, logged (Read addr reg len None) w2)
                   else
                     let (buf, w3) = read_bytes env [0..<len] w2
                     in (Some buf, logged (Read addr reg len (Some buf)) w3))"

definition delay :: "'h bus \<Rightarrow> nat \<Rightarrow> 'h world \<Rightarrow> 'h world" where
  "delay env ms w = logged (Delay ms) (w\<lparr>hw := bus_delay env ms (hw w)\<rparr>)"

definition millis :: "'h bus \<Rightarrow> 'h world \<Rightarrow> u32" where
  "millis env w = bus_millis env (hw w)"

text \<open>
  The step that the two bridge sequences repeat:
  \<^verbatim>\<open>if (!i2c_safe_write(addr, reg, val)) return false; delay(ms);\<close>
  followed by the rest \<open>k\<close> of the function.
\<close>

definition write_then ::
  "'h bus \<Rightarrow> u8 \<Rightarrow> u8 \<Rightarrow> u8 \<Rightarrow> nat \<Rightarrow> ('h world \<Rightarrow> bool \<times> 'h world) \<Rightarrow> 'h world \<Rightarrow> bool \<times> 'h world" where
  "write_then env addr reg val ms k w =
     (let (ok, w1) = i2c_safe_write env addr reg val w
      in if \<not> ok then (False, w1) else k (delay env ms w1))"

subsection \<open>Conversion factors\<close>

definition update_conversion_factors :: "driver \<Rightarrow> driver" where
  "update_conversion_factors st =
     (let r = acc_range (config st);
          st1 = (if r = 0x03 then st\<lparr>ACC_LSB := 16384\<rparr>
                 else if r = 0x05 then st\<lparr>ACC_LSB := 8192\<rparr>
                 else if r = 0x08 then st\<lparr>ACC_LSB := 4096\<rparr>
                 else if r = 0x0C then st\<lparr>ACC_LSB := 2048\<rparr>
                 else st);
          g = gyr_range (config st1)
      in if g = 0x00 then st1\<lparr>GYR_LSB := 16384 / 1000\<rparr>
         else if g = 0x01 then st1\<lparr>GYR_LSB := 32768 / 1000\<rparr>
         else if g = 0x02 then st1\<lparr>GYR_LSB := 65536 / 1000\<rparr>
         else if g = 0x03 then st1\<lparr>GYR_LSB := 131072 / 1000\<rparr>
         else if g = 0x04 then st1\<lparr>GYR_LSB := 262144 / 1000\<rparr>
         else st1)"

subsection \<open>Magnetometer on the main bus\<close>

definition init_bmm150_primary :: "'h bus \<Rightarrow> u8 \<Rightarrow> 'h world \<Rightarrow> bool \<times> 'h world" where
  "init_bmm150_primary env addr w =
     (let (ok, w1) = i2c_safe_write env addr BMM150_POWER 0x01 w
      in if \<not> ok then (False, w1)
         else let (r, w2) = i2c_safe_read env addr BMM150_CHIP_ID 1 (delay env 20 w1)
              in case r of
                   None \<Rightarrow> (False, w2)
                 | Some chip_id \<Rightarrow> if chip_id ! 0 \<noteq> 0x32 then (False, w2) else (True, w2))"

text \<open>
  The C expression \<^verbatim>\<open>(int16_t)((hi << 8) | lo)\<close>: both bytes are promoted to
  \<^verbatim>\<open>int\<close>, combined, and the result is cut to 16 bits.
\<close>

definition s16_of_bytes :: "u8 \<Rightarrow> u8 \<Rightarrow> i16" where
  "s16_of_bytes hi lo = ucast (push_bit 8 (ucast hi :: 32 word) OR (ucast lo :: 32 word))"

text \<open>
  The C expression \<^verbatim>\<open>(int16_t)((hi << 8) | lo) >> n\<close>: the cast binds tighter than
  the shift, so the 16-bit value is promoted to \<^verbatim>\<open>int\<close> with its sign, shifted
  arithmetically, and cut to 16 bits by the assignment.
\<close>

definition s16_shifted :: "u8 \<Rightarrow> u8 \<Rightarrow> nat \<Rightarrow> i16" where
  "s16_shifted hi lo n = ucast (signed_drop_bit n (scast (s16_of_bytes hi lo) :: 32 word))"

text \<open>The four assignments that end \<^verbatim>\<open>read_bmm150_forced\<close>.\<close>

definition bmm150_decode :: "u8 list \<Rightarrow> i16 list \<times> i16" where
  "bmm150_decode buf =
     ([s16_shifted (buf ! 1) (buf ! 0) 3,
       s16_shifted (buf ! 3) (buf ! 2) 3,
       s16_shifted (buf ! 5) (buf ! 4) 1],
      s16_of_bytes (buf ! 7) (buf ! 6))"

definition read_bmm150_forced :: "'h bus \<Rightarrow> driver \<Rightarrow> 'h world \<Rightarrow> (i16 list \<times> i16) \<times> 'h world" where
  "read_bmm150_forced env st w =
     (let (ok, w1) = i2c_safe_write env (bmm150_addr st) BMM150_OPMODE BMM150_FORCED_MODE w
      in if \<not> ok then (([0, 0, 0], 0), w1)
         else let (r, w2) = i2c_safe_read env (bmm150_addr st) BMM150_DATA_X 8 (delay env 1 w1)
              in case r of
                   None \<Rightarrow> (([0, 0, 0], 0), w2)
                 | Some buf \<Rightarrow> (bmm150_decode buf, w2))"

subsection \<open>Magnetometer behind the BMI160\<close>

text \<open>The test \<^verbatim>\<open>i2c_safe_read(.., &status, 1) && (status & (1 << 5))\<close>.\<close>

definition drdy_mag :: "u8 list option \<Rightarrow> bool" where
  "drdy_mag r = (case r of None \<Rightarrow> False | Some status \<Rightarrow> status ! 0 AND push_bit 5 1 \<noteq> 0)"

text \<open>The inner loop that looks for a non-zero byte among the eight of \<^verbatim>\<open>data\<close>.\<close>

definition all_zero :: "u8 list \<Rightarrow> bool" where
  "all_zero data = list_all (\<lambda>b. b = 0) data"

text \<open>
  Step 12 of \<^verbatim>\<open>init_bmm150_secondary\<close>, the loop
  \<^verbatim>\<open>for (int i = 0; i < 200; i++)\<close>: the result is true when the loop returned true
  from the function, false when it ran to its end.
\<close>

function wait_mag_data :: "'h bus \<Rightarrow> u8 \<Rightarrow> int \<Rightarrow> 'h world \<Rightarrow> bool \<times> 'h world" where
  "wait_mag_data env bmi i w =
     (if i < 200 then
        (let (s, w1) = i2c_safe_read env bmi BMI160_STATUS 1 w
         in if drdy_mag s then
              (let (d, w2) = i2c_safe_read env bmi BMI160_DATA_0 8 w1
               in case d of
                    None \<Rightarrow> wait_mag_data env bmi (i + 1) (delay env 1 w2)
                  | Some data \<Rightarrow>
                      if all_zero data then wait_mag_data env bmi (i + 1) (delay env 1 w2)
                      else (True, w2))
            else wait_mag_data env bmi (i + 1) (delay env 1 w1))
      else (False, w))"
  by pat_completeness auto
termination
  by (relation "measure (\<lambda>(env, bmi, i, w). nat (200 - i))") auto

declare wait_mag_data.simps [simp del]

definition init_bmm150_secondary :: "'h bus \<Rightarrow> driver \<Rightarrow> u8 \<Rightarrow> 'h world \<Rightarrow> bool \<times> 'h world" where
  "init_bmm150_secondary env st phys_addr w =
     (let sec_addr = drop_bit 1 phys_addr;
          bmi = bmi160_addr st;
          (chip_id, w0) = i2c_device_exists env bmi BMI160_CHIP_ID w
      in if chip_id = None then (False, w0)
         else
           (write_then env bmi BMI160_MAG_IF_0 sec_addr 1
           (write_then env bmi BMI160_MAG_IF_1 0x80 1
           (write_then env bmi BMI160_MAG_IF_3 0x4B 1
           (write_then env bmi BMI160_MAG_IF_4 0x01 1
           (write_then env bmi BMI160_MAG_IF_1 (0x80 OR push_bit 7 1) 50
           (write_then env bmi BMI160_MAG_IF_3 0x4B 1
           (write_then env bmi BMI160_MAG_IF_1 0x00 1
           (\<lambda>w7.
              let (power_status, w8) = i2c_safe_read env bmi BMI160_MAG_IF_4 1 w7
              in case power_status of
                   None \<Rightarrow> (False, w8)
                 | Some ps \<Rightarrow>
                     if ps ! 0 \<noteq> 0x01 then (False, w8)
                     else
                       (write_then env bmi BMI160_MAG_IF_3 0x4C 1
                       (write_then env bmi BMI160_MAG_IF_4 0x06 1
                       (write_then env bmi BMI160_MAG_IF_1 (0x80 OR push_bit 7 1) 50
                       (write_then env bmi BMI160_MAG_CONF 0x0B 1
                       (write_then env bmi BMI160_MAG_IF_2 0x42 1
                       (write_then env bmi BMI160_MAG_IF_1 0x03 1
                       (write_then env bmi BMI160_CMD BMI160_CMD_MAG_NORMAL 100
                       (\<lambda>w15.
                          let (found, w16) = wait_mag_data env bmi 0 w15
                          in if found then (True, w16)
                             else
                               let (d, w17) = i2c_safe_read env bmi BMI160_DATA_0 8 w16
                               in case d of
                                    None \<Rightarrow> (False, w17)
                                  | Some data \<Rightarrow>
                                      if all_zero data then (False, w17) else (True, w17)))))))))
                         w8)))))))) w0)"

text \<open>
  The two loops \<^verbatim>\<open>for (int i = 0; i < 50; i++)\<close> of
  \<^verbatim>\<open>send_forced_mode_secondary\<close>: true when the loop returned true from the
  function, false when it ran to its end.
\<close>

function wait_drdy :: "'h bus \<Rightarrow> u8 \<Rightarrow> int \<Rightarrow> 'h world \<Rightarrow> bool \<times> 'h world" where
  "wait_drdy env bmi i w =
     (if i < 50 then
        (let (s, w1) = i2c_safe_read env bmi BMI160_STATUS 1 w
         in if drdy_mag s then (True, w1)
            else wait_drdy env bmi (i + 1) (delay env 1 w1))
      else (False, w))"
  by pat_completeness auto
termination
  by (relation "measure (\<lambda>(env, bmi, i, w). nat (50 - i))") auto

declare wait_drdy.simps [simp del]

definition send_forced_mode_secondary :: "'h bus \<Rightarrow> driver \<Rightarrow> u8 \<Rightarrow> 'h world \<Rightarrow> bool \<times> 'h world" where
  "send_forced_mode_secondary env st addr w =
     (let bmi = bmi160_addr st
      in (write_then env bmi BMI160_BMM150_IF 0x01 1
         (write_then env bmi BMI160_MAG_IF_0 addr 1
         (write_then env bmi BMI160_MAG_IF_1 0x80 1
         (write_then env bmi BMI160_MAG_IF_3 BMM150_OPMODE 1
         (write_then env bmi BMI160_MAG_IF_4 BMM150_FORCED_MODE 1
         (write_then env bmi BMI160_MAG_IF_1 (0x80 OR push_bit 7 1) 2
         (\<lambda>w6.
            let (ready, w7) = wait_drdy env bmi 0 w6
            in if ready then (True, w7)
               else
                 let (_, w8) = i2c_safe_write env bmi BMI160_MAG_IF_3 0x4B w7;
                     (_, w9) = i2c_safe_write env bmi BMI160_MAG_IF_4 0x01 w8;
                     (_, w10) = i2c_safe_write env bmi BMI160_MAG_IF_1 (0x80 OR push_bit 7 1) w9
                 in wait_drdy env bmi 0 (delay env 200 w10)))))))) w)"

subsection \<open>Reading one sample\<close>

text \<open>
  The C expression \<^verbatim>\<open>(int16_t)(hi << 8) | lo\<close> of the burst decode: here the cast
  applies to the shifted high byte alone, the 16-bit value is promoted back to
  \<^verbatim>\<open>int\<close> with its sign and combined with the low byte, and the assignment cuts the
  result to 16 bits.
\<close>

definition s16_or_byte :: "u8 \<Rightarrow> u8 \<Rightarrow> i16" where
  "s16_or_byte hi lo =
     ucast ((scast (ucast (push_bit 8 (ucast hi :: 32 word)) :: i16) :: 32 word) OR (ucast lo :: 32 word))"

definition zero_sample :: raw_sample where
  "zero_sample = \<lparr>acc = [0, 0, 0], gyr = [0, 0, 0], mag = [0, 0, 0], rhall = 0\<rparr>"

text \<open>
  The forced-mode trigger that \<^verbatim>\<open>IMU_readData\<close> sends before the burst read when
  the magnetometer is bridged, with the \<^verbatim>\<open>delay(1)\<close> that follows its success.
\<close>

definition trigger_secondary :: "'h bus \<Rightarrow> driver \<Rightarrow> 'h world \<Rightarrow> 'h world" where
  "trigger_secondary env st w =
     (if mag_mode st = SECONDARY then
        (let (ok, w1) = send_forced_mode_secondary env st (bmm150_addr st) w
         in if ok then delay env 1 w1 else w1)
      else w)"

text \<open>The decode of the 20-byte burst buffer into the zeroed outputs.\<close>

definition burst_decode :: "driver \<Rightarrow> u8 list \<Rightarrow> raw_sample" where
  "burst_decode st buf =
     (let s = zero_sample
            \<lparr>acc := [s16_or_byte (buf ! 15) (buf ! 14),
                     s16_or_byte (buf ! 17) (buf ! 16),
                     s16_or_byte (buf ! 19) (buf ! 18)],
             gyr := [s16_or_byte (buf ! 9) (buf ! 8),
                     s16_or_byte (buf ! 11) (buf ! 10),
                     s16_or_byte (buf ! 13) (buf ! 12)]\<rparr>
      in if mag_mode st = SECONDARY then
           s\<lparr>mag := [s16_or_byte (buf ! 1) (buf ! 0),
                     s16_or_byte (buf ! 3) (buf ! 2),
                     s16_or_byte (buf ! 5) (buf ! 4)],
             rhall := s16_or_byte (buf ! 7) (buf ! 6)\<rparr>
         else s)"

text \<open>The block \<^verbatim>\<open>if (bmi160_addr) { ... }\<close> of \<^verbatim>\<open>IMU_readData\<close>.\<close>

definition read_bmi160 :: "'h bus \<Rightarrow> driver \<Rightarrow> 'h world \<Rightarrow> raw_sample \<times> 'h world" where
  "read_bmi160 env st w =
     (if bmi160_addr st \<noteq> 0 then
        (let (r, w2) = i2c_safe_read env (bmi160_addr st) BMI160_DATA_0 20 (trigger_secondary env st w)
         in case r of
              None \<Rightarrow> (zero_sample, w2)
            | Some buf \<Rightarrow> (burst_decode st buf, w2))
      else (zero_sample, w))"

definition IMU_readData :: "'h bus \<Rightarrow> driver \<Rightarrow> 'h world \<Rightarrow> raw_sample \<times> 'h world" where
  "IMU_readData env st w =
     (let (s, w1) = read_bmi160 env st w
      in if mag_mode st = PRIMARY then
           (let ((m, rh), w2) = read_bmm150_forced env st w1
            in (s\<lparr>mag := m, rhall := rh\<rparr>, w2))
         else (s, w1))"

subsection \<open>Device discovery\<close>

text \<open>
  The loop over \<^verbatim>\<open>candidates[]\<close> that opens \<^verbatim>\<open>IMU_begin\<close>: the first address
  that answers with identity \<open>0xD1\<close> becomes \<^verbatim>\<open>bmi160_addr\<close>.
\<close>

fun find_bmi160 :: "'h bus \<Rightarrow> u8 list \<Rightarrow> driver \<Rightarrow> 'h world \<Rightarrow> driver \<times> 'h world" where
  "find_bmi160 env [] st w = (st, w)"
| "find_bmi160 env (c # cs) st w =
     (let (chip_id, w1) = i2c_device_exists env c BMI160_CHIP_ID w
      in if chip_id = Some 0xD1 then (st\<lparr>bmi160_addr := c\<rparr>, w1)
         else find_bmi160 env cs st w1)"

text \<open>
  The block \<^verbatim>\<open>if (bmi160_addr) { ... }\<close> that configures the BMI160. The flag
  \<open>dbg\<close> says whether \<^verbatim>\<open>IMU_BMI160_BMM150_DEBUG\<close> is defined. With it, each of the
  four configuration writes is the condition of an \<^verbatim>\<open>if\<close> whose statement is a
  print. Without it the prints are compiled out, each \<^verbatim>\<open>if\<close> governs the statement
  that follows, and the four writes and the soft reset form a chain that stops at the
  first write that fails.
\<close>

definition setup_bmi160 :: "'h bus \<Rightarrow> bool \<Rightarrow> driver \<Rightarrow> 'h world \<Rightarrow> driver \<times> 'h world" where
  "setup_bmi160 env dbg st w =
     (if bmi160_addr st \<noteq> 0 then
        (let bmi = bmi160_addr st;
             c = config st;
             soft_reset = (\<lambda>w4.
               let (ok, w5) = i2c_safe_write env bmi BMI160_CMD BMI160_CMD_SOFTRESET w4
               in if ok then delay env 100 w5 else w5);
             w5 = (if dbg then
                     (let (_, w1) = i2c_safe_write env bmi BMI160_ACC_CONF (acc_odr c) w;
                          (_, w2) = i2c_safe_write env bmi BMI160_ACC_RANGE (acc_range c) w1;
                          (_, w3) = i2c_safe_write env bmi BMI160_GYR_CONF (gyr_odr c) w2;
                          (_, w4) = i2c_safe_write env bmi BMI160_GYR_RANGE (gyr_range c) w3
                      in soft_reset w4)
                   else
                     (let (ok1, w1) = i2c_safe_write env bmi BMI160_ACC_CONF (acc_odr c) w
                      in if \<not> ok1 then w1 else
                      let (ok2, w2) = i2c_safe_write env bmi BMI160_ACC_RANGE (acc_range c) w1
                      in if \<not> ok2 then w2 else
                      let (ok3, w3) = i2c_safe_write env bmi BMI160_GYR_CONF (gyr_odr c) w2
                      in if \<not> ok3 then w3 else
                      let (ok4, w4) = i2c_safe_write env bmi BMI160_GYR_RANGE (gyr_range c) w3
                      in if \<not> ok4 then w4 else soft_reset w4));
             (ok6, w6) = i2c_safe_write env bmi BMI160_CMD BMI160_CMD_ACC_NORMAL w5;
             w7 = (if ok6 then delay env 10 w6 else w6);
             (ok8, w8) = i2c_safe_write env bmi BMI160_CMD BMI160_CMD_GYR_NORMAL w7;
             w9 = (if ok8 then delay env 10 w8 else w8)
         in (update_conversion_factors st, w9))
      else (st, w))"

text \<open>The loop \<^verbatim>\<open>for (uint8_t addr = 0x10; addr <= 0x13; addr++)\<close> on the main bus.\<close>

function scan_primary :: "'h bus \<Rightarrow> u8 \<Rightarrow> driver \<Rightarrow> 'h world \<Rightarrow> driver \<times> 'h world" where
  "scan_primary env addr st w =
     (if addr \<le> 0x13 then
        (let (ok, w1) = init_bmm150_primary env addr w
         in if ok then (st\<lparr>bmm150_addr := addr, mag_mode := PRIMARY\<rparr>, w1)
            else scan_primary env (addr + 1) st w1)
      else (st, w))"
  by pat_completeness auto
termination
proof (relation "measure (\<lambda>(env, addr, st, w). 0x14 - unat addr)")
  fix env :: "'h bus" and addr :: u8 and st :: driver and w x :: "'h world" and xa y
  assume le: "addr \<le> 0x13"
  then have "unat addr \<le> 0x13"
    by (simp add: word_le_nat_alt)
  moreover from le have "unat (addr + 1) = Suc (unat addr)"
    by (simp add: unat_word_ariths word_le_nat_alt)
  ultimately show "((env, addr + 1, st, y), env, addr, st, w)
      \<in> measure (\<lambda>(env, addr, st, w). 0x14 - unat addr)"
    by simp
qed simp

declare scan_primary.simps [simp del]

text \<open>The same loop through the BMI160's secondary interface.\<close>

function scan_secondary :: "'h bus \<Rightarrow> u8 \<Rightarrow> driver \<Rightarrow> 'h world \<Rightarrow> driver \<times> 'h world" where
  "scan_secondary env addr st w =
     (if addr \<le> 0x13 then
        (let (ok, w1) = init_bmm150_secondary env st addr w
         in if ok then (st\<lparr>bmm150_addr := addr, mag_mode := SECONDARY\<rparr>, w1)
            else scan_secondary env (addr + 1) st w1)
      else (st, w))"
  by pat_completeness auto
termination
proof (relation "measure (\<lambda>(env, addr, st, w). 0x14 - unat addr)")
  fix env :: "'h bus" and addr :: u8 and st :: driver and w x :: "'h world" and xa y
  assume le: "addr \<le> 0x13"
  then have "unat addr \<le> 0x13"
    by (simp add: word_le_nat_alt)
  moreover from le have "unat (addr + 1) = Suc (unat addr)"
    by (simp add: unat_word_ariths word_le_nat_alt)
  ultimately show "((env, addr + 1, st, y), env, addr, st, w)
      \<in> measure (\<lambda>(env, addr, st, w). 0x14 - unat addr)"
    by simp
qed simp

declare scan_secondary.simps [simp del]

text \<open>
  The sweep \<^verbatim>\<open>for (uint8_t addr = 0x00; addr <= 0x7F; addr++)\<close>, which asks every
  address for the byte at the magnetometer's identity register.
\<close>

function scan_all :: "'h bus \<Rightarrow> u8 \<Rightarrow> driver \<Rightarrow> 'h world \<Rightarrow> driver \<times> 'h world" where
  "scan_all env addr st w =
     (if addr \<le> 0x7F then
        (let (chip_id, w1) = i2c_device_exists env addr BMM150_CHIP_ID w
         in if chip_id = Some 0x32 then (st\<lparr>bmm150_addr := addr, mag_mode := PRIMARY\<rparr>, w1)
            else scan_all env (addr + 1) st w1)
      else (st, w))"
  by pat_completeness auto
termination
proof (relation "measure (\<lambda>(env, addr, st, w). 0x80 - unat addr)")
  fix env :: "'h bus" and addr :: u8 and st :: driver and w x :: "'h world" and xa y
  assume le: "addr \<le> 0x7F"
  then have "unat addr \<le> 0x7F"
    by (simp add: word_le_nat_alt)
  moreover from le have "unat (addr + 1) = Suc (unat addr)"
    by (simp add: unat_word_ariths word_le_nat_alt)
  ultimately show "((env, addr + 1, st, y), env, addr, st, w)
      \<in> measure (\<lambda>(env, addr, st, w). 0x80 - unat addr)"
    by simp
qed simp

declare scan_all.simps [simp del]

text \<open>\<^verbatim>\<open>IMU_begin\<close> up to the end of the search on the main bus (steps 1 to 3).\<close>

definition discover_direct :: "'h bus \<Rightarrow> bool \<Rightarrow> driver \<Rightarrow> 'h world \<Rightarrow> driver \<times> 'h world" where
  "discover_direct env dbg st w =
     (let (st1, w1) = find_bmi160 env [BMI160_ADDR_68, BMI160_ADDR_69] st w;
          (st2, w2) = setup_bmi160 env dbg st1 w1
      in scan_primary env 0x10 st2 w2)"

text \<open>
  \<^verbatim>\<open>IMU_begin\<close>: the result is the value returned, the statics and the world.
\<close>

definition IMU_begin :: "'h bus \<Rightarrow> bool \<Rightarrow> driver \<Rightarrow> 'h world \<Rightarrow> bool \<times> driver \<times> 'h world" where
  "IMU_begin env dbg st w =
     (let (st3, w3) = discover_direct env dbg st w;
          (st5, w5) =
            (if bmi160_addr st3 \<noteq> 0 \<and> bmm150_addr st3 = 0 then
               (let (st4, w4) = scan_secondary env 0x10 st3 w3
                in if bmm150_addr st4 = 0 then scan_all env 0x00 st4 w4 else (st4, w4))
             else (st3, w3));
          st6 = (if bmm150_addr st5 = 0 then st5 else st5\<lparr>initialized := True\<rparr>)
      in (initialized st6, st6, w5))"

subsection \<open>Ranges and queries\<close>

definition IMU_setAccelRange :: "'h bus \<Rightarrow> u8 \<Rightarrow> driver \<Rightarrow> 'h world \<Rightarrow> driver \<times> 'h world" where
  "IMU_setAccelRange env rng st w =
     (if bmi160_addr st \<noteq> 0 then
        (let (_, w1) = i2c_safe_write env (bmi160_addr st) BMI160_ACC_RANGE rng w
         in (update_conversion_factors (st\<lparr>config := (config st)\<lparr>acc_range := rng\<rparr>\<rparr>), w1))
      else (st, w))"

definition IMU_setGyroRange :: "'h bus \<Rightarrow> u8 \<Rightarrow> driver \<Rightarrow> 'h world \<Rightarrow> driver \<times> 'h world" where
  "IMU_setGyroRange env rng st w =
     (if bmi160_addr st \<noteq> 0 then
        (let (_, w1) = i2c_safe_write env (bmi160_addr st) BMI160_GYR_RANGE rng w
         in (update_conversion_factors (st\<lparr>config := (config st)\<lparr>gyr_range := rng\<rparr>\<rparr>), w1))
      else (st, w))"

definition IMU_getMagMode :: "driver \<Rightarrow> MagMode" where
  "IMU_getMagMode st = mag_mode st"

definition IMU_isInitialized :: "driver \<Rightarrow> bool" where
  "IMU_isInitialized st = initialized st"

subsection \<open>Reading at a frequency\<close>

text \<open>
  \<^verbatim>\<open>IMU_readDataWithFrequency\<close>. The function computes \<^verbatim>\<open>interval\<close> from its
  \<^verbatim>\<open>float\<close> argument \<^verbatim>\<open>frequency\<close> by floating-point clamping and division; that
  computation is outside the embedding, and the model takes the resulting
  \<^verbatim>\<open>unsigned long interval\<close> in place of the frequency. \<open>out\<close> is the content of
  the caller's four buffers on entry, and the first component of the result is their
  content on return.

  \<open>push_max_odr\<close> is the block that writes the fastest output-rate code to the
  accelerometer and the gyroscope at every call.

  In \<^verbatim>\<open>acc_sum[0] / samples\<close> the left operand is \<^verbatim>\<open>int32_t\<close> and the right one
  \<^verbatim>\<open>uint32_t\<close>: the usual arithmetic conversions make both unsigned, so the division is
  the unsigned one, which is \<open>div\<close> on words; the assignment to \<^verbatim>\<open>int16_t\<close> keeps the
  low 16 bits. In \<^verbatim>\<open>acc_sum[0] += acc_raw[0]\<close> the sample is promoted with its sign.
\<close>

definition push_max_odr :: "'h bus \<Rightarrow> driver \<Rightarrow> 'h world \<Rightarrow> 'h world" where
  "push_max_odr env st w =
     (if bmi160_addr st \<noteq> 0 then
        (let (_, w1) = i2c_safe_write env (bmi160_addr st) BMI160_ACC_CONF 0x0C w;
             (_, w2) = i2c_safe_write env (bmi160_addr st) BMI160_GYR_CONF 0x0C w1
         in w2)
      else w)"

text \<open>
  A division by zero is undefined in C, where \<open>div\<close> on words gives zero. So that what
  the code divides by can be stated, every division that a call executes is recorded:
  \<open>divide s n ds\<close> is the statement \<^verbatim>\<open>out = s / n;\<close> with an \<^verbatim>\<open>int16_t\<close> on the left.
  It gives the value assigned and adds the dividend and the divisor to the list
  \<open>ds\<close> of the divisions executed so far in the call, the most recent first.
\<close>

type_synonym division = "i32 \<times> u32"

definition divide :: "i32 \<Rightarrow> u32 \<Rightarrow> division list \<Rightarrow> i16 \<times> division list" where
  "divide s n ds = (ucast (s div n), (s, n) # ds)"

text \<open>
  The body of \<^verbatim>\<open>IMU_readDataWithFrequency\<close>, statement by statement. The first
  component of the result is the list of the divisions that the call executed.
\<close>

definition IMU_readDataWithFrequency_traced ::
  "'h bus \<Rightarrow> u32 \<Rightarrow> raw_sample \<Rightarrow> driver \<Rightarrow> 'h world \<Rightarrow> division list \<times> raw_sample \<times> driver \<times> 'h world" where
  "IMU_readDataWithFrequency_traced env interval out st w =
     (let w2 = push_max_odr env st w;
          current_time = millis env w2
      in if current_time - last_time st \<ge> interval then
           (if samples st > 0 then
              (let (a0, d1) = divide (acc_sum st ! 0) (samples st) [];
                   (a1, d2) = divide (acc_sum st ! 1) (samples st) d1;
                   (a2, d3) = divide (acc_sum st ! 2) (samples st) d2;
                   (g0, d4) = divide (gyr_sum st ! 0) (samples st) d3;
                   (g1, d5) = divide (gyr_sum st ! 1) (samples st) d4;
                   (g2, d6) = divide (gyr_sum st ! 2) (samples st) d5;
                   (m0, d7) = divide (mag_sum st ! 0) (samples st) d6;
                   (m1, d8) = divide (mag_sum st ! 1) (samples st) d7;
                   (m2, d9) = divide (mag_sum st ! 2) (samples st) d8;
                   (rh, d10) = divide (rhall_sum st) (samples st) d9
               in (d10,
                   out\<lparr>acc := [a0, a1, a2], gyr := [g0, g1, g2], mag := [m0, m1, m2], rhall := rh\<rparr>,
                   st\<lparr>acc_sum := [0, 0, 0], gyr_sum := [0, 0, 0], mag_sum := [0, 0, 0],
                      rhall_sum := 0, samples := 0, last_time := current_time\<rparr>,
                   w2))
            else ([], out, st\<lparr>last_time := current_time\<rparr>, w2))
         else
           (let (raw, w3) = IMU_readData env st w2
            in ([], out,
                st\<lparr>acc_sum := [acc_sum st ! 0 + scast (acc raw ! 0),
                               acc_sum st ! 1 + scast (acc raw ! 1),
                               acc_sum st ! 2 + scast (acc raw ! 2)],
                   gyr_sum := [gyr_sum st ! 0 + scast (gyr raw ! 0),
                               gyr_sum st ! 1 + scast (gyr raw ! 1),
                               gyr_sum st ! 2 + scast (gyr raw ! 2)],
                   mag_sum := [mag_sum st ! 0 + scast (mag raw ! 0),
                               mag_sum st ! 1 + scast (mag raw ! 1),
                               mag_sum st ! 2 + scast (mag raw ! 2)],
                   rhall_sum := rhall_sum st + scast (rhall raw),
                   samples := samples st + 1\<rparr>,
                w3)))"

text \<open>
  What the call does to the caller's buffers, the statics and the world: the result
  without the list of divisions.
\<close>

definition IMU_readDataWithFrequency ::
  "'h bus \<Rightarrow> u32 \<Rightarrow> raw_sample \<Rightarrow> driver \<Rightarrow> 'h world \<Rightarrow> raw_sample \<times> driver \<times> 'h world" where
  "IMU_readDataWithFrequency env interval out st w =
     snd (IMU_readDataWithFrequency_traced env interval out st w)"

subsection \<open>The public operations\<close>

text \<open>
  A call of one of the seven functions the driver exports, and its effect on the
  statics, on the caller's output buffers and on the world.
\<close>

datatype operation =
  Begin
  | ReadData
  | ReadDataWithFrequency u32
  | SetAccelRange u8
  | SetGyroRange u8
  | GetMagMode
  | IsInitialized

fun exec :: "'h bus \<Rightarrow> bool \<Rightarrow> operation \<Rightarrow> driver \<times> raw_sample \<times> 'h world \<Rightarrow> driver \<times> raw_sample \<times> 'h world" where
  "exec env dbg Begin (st, out, w) =
     (let (_, st1, w1) = IMU_begin env dbg st w in (st1, out, w1))"
| "exec env dbg ReadData (st, out, w) =
     (let (s, w1) = IMU_readData env st w in (st, s, w1))"
| "exec env dbg (ReadDataWithFrequency interval) (st, out, w) =
     (let (out1, st1, w1) = IMU_readDataWithFrequency env interval out st w in (st1, out1, w1))"
| "exec env dbg (SetAccelRange r) (st, out, w) =
     (let (st1, w1) = IMU_setAccelRange env r st w in (st1, out, w1))"
| "exec env dbg (SetGyroRange r) (st, out, w) =
     (let (st1, w1) = IMU_setGyroRange env r st w in (st1, out, w1))"
| "exec env dbg GetMagMode (st, out, w) = (st, out, w)"
| "exec env dbg IsInitialized (st, out, w) = (st, out, w)"

fun run :: "'h bus \<Rightarrow> bool \<Rightarrow> operation list \<Rightarrow> driver \<times> raw_sample \<times> 'h world \<Rightarrow> driver \<times> raw_sample \<times> 'h world" where
  "run env dbg [] s = s"
| "run env dbg (c # cs) s = run env dbg cs (exec env dbg c s)"

subsection \<open>Notions of the specification\<close>

text \<open>
  A little-endian signed 16-bit word, as a number: the byte at the lower offset is
  the low byte, and values from \<open>2\<^sup>1\<^sup>5\<close> on are negative.
\<close>

definition le_s16 :: "u8 \<Rightarrow> u8 \<Rightarrow> int" where
  "le_s16 b0 b1 = (let u = uint b0 + 256 * uint b1 in if u < 32768 then u else u - 65536)"

text \<open>
  Whether the output interval has elapsed at a call: the test
  \<^verbatim>\<open>current_time - last_time >= interval\<close> on the clock read after the rate writes.
\<close>

definition elapsed :: "'h bus \<Rightarrow> u32 \<Rightarrow> driver \<Rightarrow> 'h world \<Rightarrow> bool" where
  "elapsed env interval st w \<longleftrightarrow> interval \<le> millis env (push_max_odr env st w) - last_time st"

text \<open>The integer-truncated quotient: the quotient of the magnitudes, with the sign.\<close>

definition trunc_div :: "int \<Rightarrow> int \<Rightarrow> int" where
  "trunc_div a b = sgn a * sgn b * (\<bar>a\<bar> div \<bar>b\<bar>)"

text \<open>
  The range tables as the documentation of \<^verbatim>\<open>IMU_setAccelRange\<close> and
  \<^verbatim>\<open>IMU_setGyroRange\<close> gives them: the valid codes and the factor of each.
\<close>

definition acc_lsb_doc :: "u8 \<Rightarrow> rat option" where
  "acc_lsb_doc r =
     (if r = 0x03 then Some 16384
      else if r = 0x05 then Some 8192
      else if r = 0x08 then Some 4096
      else if r = 0x0C then Some 2048
      else None)"

definition gyr_lsb_doc :: "u8 \<Rightarrow> rat option" where
  "gyr_lsb_doc r =
     (if r = 0x00 then Some (16384 / 1000)
      else if r = 0x01 then Some (32768 / 1000)
      else if r = 0x02 then Some (65536 / 1000)
      else if r = 0x03 then Some (131072 / 1000)
      else if r = 0x04 then Some (262144 / 1000)
      else None)"

definition factors_consistent :: "driver \<Rightarrow> bool" where
  "factors_consistent st \<longleftrightarrow>
     acc_lsb_doc (acc_range (config st)) = Some (ACC_LSB st) \<and>
     gyr_lsb_doc (gyr_range (config st)) = Some (GYR_LSB st)"

text \<open>A call whose range code, if it takes one, is a valid code.\<close>

fun valid_call :: "operation \<Rightarrow> bool" where
  "valid_call (SetAccelRange r) = (acc_lsb_doc r \<noteq> None)"
| "valid_call (SetGyroRange r) = (gyr_lsb_doc r \<noteq> None)"
| "valid_call _ = True"

text \<open>
  The sweep is the only place that probes for the byte at the magnetometer's identity
  register \<open>0x40\<close>: the sweep has run when the history holds such a probe.
\<close>

fun is_sweep_probe :: "event \<Rightarrow> bool" where
  "is_sweep_probe (Probe addr reg r) = (reg = BMM150_CHIP_ID)"
| "is_sweep_probe _ = False"

definition sweep_ran :: "'h world \<Rightarrow> bool" where
  "sweep_ran w = list_ex is_sweep_probe (history w)"

text \<open>
  The sweep matched at an address when the history holds a probe of the identity
  register at that address that was answered with the magnetometer's identity \<open>0x32\<close>.
\<close>

definition sweep_matched_at :: "'h world \<Rightarrow> u8 \<Rightarrow> bool" where
  "sweep_matched_at w addr \<longleftrightarrow> Probe addr BMM150_CHIP_ID (Some 0x32) \<in> set (history w)"

text \<open>The identity register of an address was probed.\<close>

fun is_sweep_probe_of :: "u8 \<Rightarrow> event \<Rightarrow> bool" where
  "is_sweep_probe_of x (Probe addr reg r) = (addr = x \<and> reg = BMM150_CHIP_ID)"
| "is_sweep_probe_of x _ = False"

definition sweep_probed :: "'h world \<Rightarrow> u8 \<Rightarrow> bool" where
  "sweep_probed w x = list_ex (is_sweep_probe_of x) (history w)"

text \<open>The consistency of the topology variables that C10 states.\<close>

definition topology_consistent :: "driver \<Rightarrow> bool" where
  "topology_consistent st \<longleftrightarrow>
     (mag_mode st = SECONDARY \<longrightarrow> bmi160_addr st \<noteq> 0) \<and>
     (mag_mode st \<noteq> NONE \<longleftrightarrow> bmm150_addr st \<noteq> 0) \<and>
     (initialized st \<longleftrightarrow> bmm150_addr st \<noteq> 0)"

subsection \<open>Buses for the examples\<close>

text \<open>
  A simulated bus. The hardware state holds the clock in milliseconds, the register
  pointer that the last transmission set, and the bytes received and not yet read.
  \<open>acks addr\<close> says whether a device acknowledges transmissions to \<open>addr\<close>;
  \<open>regs addr reg\<close> is what a read of \<open>addr\<close> that starts at register \<open>reg\<close>
  delivers, byte by byte, or \<open>None\<close> when nothing answers the read.
\<close>

record sim =
  clock :: nat
  pointer :: u8
  received :: "u8 list"

definition sim_bus :: "(u8 \<Rightarrow> bool) \<Rightarrow> (u8 \<Rightarrow> u8 \<Rightarrow> (nat \<Rightarrow> u8) option) \<Rightarrow> sim bus" where
  "sim_bus acks regs =
     \<lparr>wire_transmit = (\<lambda>addr bytes stop h.
         if acks addr then (0, h\<lparr>pointer := (case bytes of [] \<Rightarrow> pointer h | b # bs \<Rightarrow> b)\<rparr>)
         else (2, h)),
      wire_request = (\<lambda>addr len ms h.
         case regs addr (pointer h) of
           None \<Rightarrow> (0, h)
         | Some f \<Rightarrow> (len, h\<lparr>received := map f [0..<len]\<rparr>)),
      wire_read = (\<lambda>h.
         case received h of
           [] \<Rightarrow> (0xFF, h)
         | b # bs \<Rightarrow> (b, h\<lparr>received := bs\<rparr>)),
      bus_delay = (\<lambda>ms h. h\<lparr>clock := clock h + ms\<rparr>),
      bus_millis = (\<lambda>h. of_nat (clock h))\<rparr>"

text \<open>The world with the clock at \<open>t\<close> milliseconds and an empty history.\<close>

definition world_at :: "nat \<Rightarrow> sim world" where
  "world_at t = \<lparr>hw = \<lparr>clock = t, pointer = 0, received = []\<rparr>, history = []\<rparr>"

definition world0 :: "sim world" where
  "world0 = world_at 0"

text \<open>
  A magnetometer alone on the main bus at address \<open>0x10\<close>: it acknowledges
  transmissions, reports identity \<open>0x32\<close>, and its data window holds the eight bytes
  of the spec's decode example.
\<close>

definition spec_window :: "nat \<Rightarrow> u8" where
  "spec_window i = [0x10, 0x00, 0x20, 0x00, 0x08, 0x00, 0x01, 0x00] ! i"

definition bus_direct :: "sim bus" where
  "bus_direct =
     sim_bus (\<lambda>addr. addr = 0x10)
       (\<lambda>addr reg.
          if addr = 0x10 \<and> reg = BMM150_CHIP_ID then Some (\<lambda>i. 0x32)
          else if addr = 0x10 \<and> reg = BMM150_DATA_X then Some spec_window
          else None)"

definition st_direct :: driver where
  "st_direct = power_on\<lparr>bmm150_addr := 0x10, mag_mode := PRIMARY\<rparr>"

text \<open>
  A BMI160 at \<open>0x68\<close> with a magnetometer behind it: the BMI160 reports its identity
  \<open>0xD1\<close>, the magnetometer powered and its data ready, and its data registers hold
  the bytes \<open>255, 254, ...\<close>.
\<close>

definition bus_bridged :: "sim bus" where
  "bus_bridged =
     sim_bus (\<lambda>addr. addr = 0x68)
       (\<lambda>addr reg.
          if addr = 0x68 \<and> reg = BMI160_CHIP_ID then Some (\<lambda>i. 0xD1)
          else if addr = 0x68 \<and> reg = BMI160_STATUS then Some (\<lambda>i. 0x20)
          else if addr = 0x68 \<and> reg = BMI160_MAG_IF_4 then Some (\<lambda>i. 0x01)
          else if addr = 0x68 \<and> reg = BMI160_DATA_0 then Some (\<lambda>i. 255 - of_nat i)
          else None)"

definition st_bridged :: driver where
  "st_bridged = power_on\<lparr>bmi160_addr := 0x68, bmm150_addr := 0x10, mag_mode := SECONDARY\<rparr>"

text \<open>
  The registers of a BMI160 with nothing behind it: the identity \<open>0xD1\<close> at register
  \<open>0x00\<close> and zero everywhere else, so that the magnetometer's power status read back
  through it is not \<open>0x01\<close>.
\<close>

definition bmi160_alone :: "u8 \<Rightarrow> nat \<Rightarrow> u8" where
  "bmi160_alone reg i = (if reg = BMI160_CHIP_ID \<and> i = 0 then 0xD1 else 0x00)"

text \<open>A BMI160 alone at \<open>0x68\<close>.\<close>

definition bus_bmi_only :: "sim bus" where
  "bus_bmi_only =
     sim_bus (\<lambda>addr. addr = 0x68)
       (\<lambda>addr reg. if addr = 0x68 then Some (bmi160_alone reg) else None)"

text \<open>
  The same BMI160 on a bus where address \<open>0x00\<close>, the general-call address,
  acknowledges and the read of its register \<open>0x40\<close> delivers the byte \<open>0x32\<close>.
\<close>

definition bus_general_call :: "sim bus" where
  "bus_general_call =
     sim_bus (\<lambda>addr. addr = 0x68 \<or> addr = 0x00)
       (\<lambda>addr reg.
          if addr = 0x68 then Some (bmi160_alone reg)
          else if addr = 0x00 \<and> reg = BMM150_CHIP_ID then Some (\<lambda>i. 0x32)
          else None)"

text \<open>
  The same BMI160 with a magnetometer that answers at \<open>0x14\<close>, outside the four
  addresses of the first two searches.
\<close>

definition bus_swept :: "sim bus" where
  "bus_swept =
     sim_bus (\<lambda>addr. addr = 0x68 \<or> addr = 0x14)
       (\<lambda>addr reg.
          if addr = 0x68 then Some (bmi160_alone reg)
          else if addr = 0x14 \<and> reg = BMM150_CHIP_ID then Some (\<lambda>i. 0x32)
          else None)"

text \<open>
  A BMI160 at \<open>0x68\<close> whose registers hold \<open>0xFF\<close> in every byte: every
  accelerometer and gyroscope axis reads \<open>-1\<close>.
\<close>

definition bus_minus_one :: "sim bus" where
  "bus_minus_one =
     sim_bus (\<lambda>addr. addr = 0x68)
       (\<lambda>addr reg. if addr = 0x68 then Some (\<lambda>i. 0xFF) else None)"

definition st_bmi :: driver where
  "st_bmi = power_on\<lparr>bmi160_addr := 0x68\<rparr>"

text \<open>Caller's buffers that hold values from an earlier call.\<close>

definition out7 :: raw_sample where
  "out7 = \<lparr>acc = [1, 2, 3], gyr = [4, 5, 6], mag = [7, 8, 9], rhall = 10\<rparr>"

section \<open>The helpers on the simulated bus\<close>

text \<open>
  On a simulated bus each helper has a closed form, and the examples are evaluated
  with these.
\<close>

lemma sim_write:
  "i2c_safe_write (sim_bus acks regs) a r v w =
     (acks a, \<lparr>hw = (if acks a then (hw w)\<lparr>pointer := r\<rparr> else hw w),
               history = Write a r v (acks a) # history w\<rparr>)"
  by (simp add: i2c_safe_write_def sim_bus_def on_hw_def logged_def Let_def)

lemma sim_ack:
  "i2c_device_exists_nullptr (sim_bus acks regs) a r w =
     (acks a, \<lparr>hw = (if acks a then (hw w)\<lparr>pointer := r\<rparr> else hw w),
               history = Ack a r (acks a) # history w\<rparr>)"
  by (simp add: i2c_device_exists_nullptr_def sim_bus_def on_hw_def logged_def Let_def)

lemma sim_delay:
  "delay (sim_bus acks regs) ms w =
     \<lparr>hw = (hw w)\<lparr>clock := clock (hw w) + ms\<rparr>, history = Delay ms # history w\<rparr>"
  by (simp add: delay_def sim_bus_def logged_def)

lemma sim_millis: "millis (sim_bus acks regs) w = of_nat (clock (hw w))"
  by (simp add: millis_def sim_bus_def)

lemma sim_probe:
  "i2c_device_exists (sim_bus acks regs) a r w =
     (if acks a then
        (case regs a r of
           None \<Rightarrow> (None, \<lparr>hw = (hw w)\<lparr>pointer := r\<rparr>, history = Probe a r None # history w\<rparr>)
         | Some f \<Rightarrow> (Some (f 0), \<lparr>hw = (hw w)\<lparr>pointer := r, received := []\<rparr>,
                                  history = Probe a r (Some (f 0)) # history w\<rparr>))
      else (None, \<lparr>hw = hw w, history = Probe a r None # history w\<rparr>))"
  by (simp add: i2c_device_exists_def sim_bus_def on_hw_def logged_def Let_def split: option.splits)

lemma sim_read_bytes:
  "received (hw w) = xs @ rest \<Longrightarrow> length is = length xs \<Longrightarrow>
   read_bytes (sim_bus acks regs) is w = (xs, w\<lparr>hw := (hw w)\<lparr>received := rest\<rparr>\<rparr>)"
proof (induction "is" arbitrary: w xs)
  case Nil
  then show ?case by simp
next
  case (Cons i "is")
  then obtain x xs' where xs: "xs = x # xs'"
    by (cases xs) auto
  let ?w1 = "w\<lparr>hw := (hw w)\<lparr>received := xs' @ rest\<rparr>\<rparr>"
  from Cons.prems xs have step: "on_hw (wire_read (sim_bus acks regs)) w = (x, ?w1)"
    by (simp add: on_hw_def sim_bus_def)
  from Cons.prems xs have "read_bytes (sim_bus acks regs) is ?w1 =
      (xs', ?w1\<lparr>hw := (hw ?w1)\<lparr>received := rest\<rparr>\<rparr>)"
    by (intro Cons.IH) simp_all
  with step xs show ?case
    by simp
qed

lemma sim_read:
  assumes "0 < n"
  shows "i2c_safe_read (sim_bus acks regs) a r n w =
     (if acks a then
        (case regs a r of
           None \<Rightarrow> (None, \<lparr>hw = (hw w)\<lparr>pointer := r\<rparr>,
                          history = Read a r n None # Ack a 0x00 True # history w\<rparr>)
         | Some f \<Rightarrow> (Some (map f [0..<n]), \<lparr>hw = (hw w)\<lparr>pointer := r, received := []\<rparr>,
                          history = Read a r n (Some (map f [0..<n])) # Ack a 0x00 True # history w\<rparr>))
      else (None, \<lparr>hw = hw w, history = Read a r n None # Ack a 0x00 False # history w\<rparr>))"
proof (cases "acks a")
  case False
  then show ?thesis
    by (simp add: i2c_safe_read_def sim_ack logged_def)
next
  case True
  show ?thesis
  proof (cases "regs a r")
    case None
    with True assms show ?thesis
      unfolding i2c_safe_read_def sim_ack
      by (simp add: logged_def on_hw_def sim_bus_def)
  next
    case (Some f)
    let ?w2 = "\<lparr>hw = (hw w)\<lparr>pointer := r, received := map f [0..<n]\<rparr>,
                 history = Ack a 0x00 True # history w\<rparr>"
    have rb: "read_bytes (sim_bus acks regs) [0..<n] ?w2 =
        (map f [0..<n], ?w2\<lparr>hw := (hw ?w2)\<lparr>received := []\<rparr>\<rparr>)"
      by (rule sim_read_bytes) simp_all
    have rq: "on_hw (wire_request (sim_bus acks regs) a n 10)
        \<lparr>hw = (hw w)\<lparr>pointer := r\<rparr>, history = Ack a 0x00 True # history w\<rparr> = (n, ?w2)"
      using Some by (simp add: on_hw_def sim_bus_def)
    have tx: "on_hw (wire_transmit (sim_bus acks regs) a [r] False)
        \<lparr>hw = (hw w)\<lparr>pointer := 0x00\<rparr>, history = Ack a 0x00 True # history w\<rparr> =
        (0, \<lparr>hw = (hw w)\<lparr>pointer := r\<rparr>, history = Ack a 0x00 True # history w\<rparr>)"
      using True by (simp add: on_hw_def sim_bus_def)
    from True Some show ?thesis
      unfolding i2c_safe_read_def sim_ack
      by (simp add: tx rq rb logged_def)
  qed
qed

lemmas sim_io = sim_write sim_ack sim_delay sim_millis sim_probe sim_read

lemmas model_defs =
  IMU_begin_def discover_direct_def setup_bmi160_def init_bmm150_primary_def
  init_bmm150_secondary_def write_then_def send_forced_mode_secondary_def trigger_secondary_def
  read_bmi160_def IMU_readData_def read_bmm150_forced_def push_max_odr_def
  scan_primary.simps scan_secondary.simps scan_all.simps wait_drdy.simps wait_mag_data.simps
  drdy_mag_def all_zero_def update_conversion_factors_def upt_rec

lemmas example_defs =
  bus_direct_def bus_bridged_def bus_bmi_only_def bus_general_call_def bus_swept_def
  bus_minus_one_def bmi160_alone_def spec_window_def
  world0_def world_at_def power_on_def st_bmi_def st_direct_def st_bridged_def

section \<open>Decoding\<close>

lemma uint_word_cat_bytes:
  "uint (word_cat (hi :: u8) (lo :: u8) :: i16) = uint lo + 256 * uint hi"
proof -
  have lo: "0 \<le> uint lo" "uint lo < 256"
    using uint_lt2p [of lo] by simp_all
  have hi: "0 \<le> uint hi" "uint hi < 256"
    using uint_lt2p [of hi] by simp_all
  have "uint (word_cat hi lo :: i16) = take_bit 16 (concat_bit 8 (uint lo) (uint hi))"
    by (simp add: word_cat_eq' uint_word_of_int_eq)
  also have "concat_bit 8 (uint lo) (uint hi) = uint lo + 256 * uint hi"
    using lo by (simp add: concat_bit_eq take_bit_int_eq_self push_bit_eq_mult)
  also have "take_bit 16 (uint lo + 256 * uint hi) = uint lo + 256 * uint hi"
    using lo hi by (simp add: take_bit_int_eq_self)
  finally show ?thesis .
qed

lemma sint_i16:
  "sint (v :: i16) = (if uint v < 32768 then uint v else uint v - 65536)"
proof -
  have b: "0 \<le> uint v" "uint v < 65536"
    using uint_lt2p [of v] by simp_all
  have "uint v div 32768 = (if uint v < 32768 then 0 else 1)"
    using b by auto
  then have "bit (uint v) 15 \<longleftrightarrow> \<not> uint v < 32768"
    by (simp add: bit_iff_odd)
  then show ?thesis
    using b by (simp add: sint_uint signed_take_bit_eq_take_bit_minus take_bit_int_eq_self)
qed

lemma sint_word_cat_bytes: "sint (word_cat hi lo :: i16) = le_s16 lo hi"
  by (simp add: sint_i16 uint_word_cat_bytes le_s16_def Let_def)

lemma s16_of_bytes_cat: "s16_of_bytes hi lo = word_cat hi lo"
  unfolding s16_of_bytes_def
  by (rule bit_word_eqI) (auto simp: bit_simps dest: bit_imp_le_length)

lemma s16_or_byte_cat: "s16_or_byte hi lo = word_cat hi lo"
  unfolding s16_or_byte_def
  by (rule bit_word_eqI) (auto simp: bit_simps dest: bit_imp_le_length)

lemma s16_shifted_cat: "s16_shifted hi lo n = signed_drop_bit n (word_cat hi lo :: i16)"
  unfolding s16_shifted_def s16_of_bytes_cat
  by (rule bit_word_eqI) (auto simp: bit_simps dest: bit_imp_le_length)

lemma sint_s16_of_bytes: "sint (s16_of_bytes hi lo) = le_s16 lo hi"
  by (simp add: s16_of_bytes_cat sint_word_cat_bytes)

lemma sint_s16_or_byte: "sint (s16_or_byte hi lo) = le_s16 lo hi"
  by (simp add: s16_or_byte_cat sint_word_cat_bytes)

lemma sint_s16_shifted: "sint (s16_shifted hi lo n) = le_s16 lo hi div 2 ^ n"
  by (simp add: s16_shifted_cat sint_signed_drop_bit_eq sint_word_cat_bytes drop_bit_eq_div)


text \<open>
  C6. In Direct (\<^verbatim>\<open>PRIMARY\<close>) mode, when the forced-mode write and the read of the
  8-byte data window both succeed, \<^verbatim>\<open>IMU_readData\<close> returns as X and Y the
  little-endian signed 16-bit words at bytes 0-1 and 2-3 shifted right arithmetically
  by 3 bits, as Z the word at bytes 4-5 shifted right arithmetically by 1 bit, and as
  RHALL the unshifted word at bytes 6-7 (\<open>drop_bit\<close> on \<open>int\<close> is the arithmetic
  shift). The window \<open>{0x10,0x00,0x20,0x00,0x08,0x00,0x01,0x00}\<close> decodes to
  X=2, Y=4, Z=4, RHALL=1.
\<close>

theorem direct_mode_decode:
  assumes "mag_mode st = PRIMARY"
    and "fst (i2c_safe_write env (bmm150_addr st) BMM150_OPMODE BMM150_FORCED_MODE
               (snd (read_bmi160 env st w)))"
    and "fst (i2c_safe_read env (bmm150_addr st) BMM150_DATA_X 8
               (delay env 1 (snd (i2c_safe_write env (bmm150_addr st) BMM150_OPMODE
                  BMM150_FORCED_MODE (snd (read_bmi160 env st w)))))) = Some buf"
  shows "map sint (mag (fst (IMU_readData env st w))) =
           [drop_bit 3 (le_s16 (buf ! 0) (buf ! 1)),
            drop_bit 3 (le_s16 (buf ! 2) (buf ! 3)),
            drop_bit 1 (le_s16 (buf ! 4) (buf ! 5))]
       \<and> sint (rhall (fst (IMU_readData env st w))) = le_s16 (buf ! 6) (buf ! 7)
       \<and> bmm150_decode [0x10, 0x00, 0x20, 0x00, 0x08, 0x00, 0x01, 0x00] = ([2, 4, 4], 1)"
proof -
  have "fst (read_bmm150_forced env st (snd (read_bmi160 env st w))) = bmm150_decode buf"
    using assms(2,3) by (simp add: read_bmm150_forced_def split_def)
  then have "mag (fst (IMU_readData env st w)) = fst (bmm150_decode buf)"
    and "rhall (fst (IMU_readData env st w)) = snd (bmm150_decode buf)"
    using assms(1) by (simp_all add: IMU_readData_def split_def Let_def)
  moreover have "bmm150_decode [0x10, 0x00, 0x20, 0x00, 0x08, 0x00, 0x01, 0x00] = ([2, 4, 4], 1)"
    by (simp add: bmm150_decode_def s16_shifted_def s16_of_bytes_def)
  ultimately show ?thesis
    by (simp add: bmm150_decode_def sint_s16_shifted sint_s16_of_bytes drop_bit_eq_div)
qed

theorem direct_mode_decode_witness:
  "map sint (mag (fst (IMU_readData bus_direct st_direct world0))) = [2, 4, 4]
   \<and> sint (rhall (fst (IMU_readData bus_direct st_direct world0))) = 1"
proof -
  have m: "mag_mode st_direct = PRIMARY"
    by (simp add: example_defs)
  have ok: "fst (i2c_safe_write bus_direct (bmm150_addr st_direct) BMM150_OPMODE BMM150_FORCED_MODE
               (snd (read_bmi160 bus_direct st_direct world0)))"
    by (simp add: model_defs example_defs sim_io)
  have rd: "fst (i2c_safe_read bus_direct (bmm150_addr st_direct) BMM150_DATA_X 8
               (delay bus_direct 1 (snd (i2c_safe_write bus_direct (bmm150_addr st_direct)
                  BMM150_OPMODE BMM150_FORCED_MODE (snd (read_bmi160 bus_direct st_direct world0))))))
            = Some [0x10, 0x00, 0x20, 0x00, 0x08, 0x00, 0x01, 0x00]"
    by (simp add: model_defs example_defs sim_io)
  show ?thesis
    using direct_mode_decode [OF m ok rd]
    by (simp add: le_s16_def drop_bit_eq_div)
qed

text \<open>
  C7. When the BMI160 is present and the 20-byte burst read succeeds,
  \<^verbatim>\<open>IMU_readData\<close> returns for each axis the little-endian signed 16-bit word at its
  offset: accelerometer X/Y/Z at 14-15, 16-17, 18-19 and gyroscope X/Y/Z at 8-9, 10-11,
  12-13. In Bridged (\<^verbatim>\<open>SECONDARY\<close>) mode the magnetometer X/Y/Z are the words at 0-1,
  2-3, 4-5 and RHALL the word at 6-7. In the other modes the buffer does not reach
  the magnetometer outputs: they are zero when no magnetometer is present, and what the
  separate forced-mode read returns in Direct mode.
\<close>

theorem burst_decode_offsets:
  assumes "bmi160_addr st \<noteq> 0"
    and "fst (i2c_safe_read env (bmi160_addr st) BMI160_DATA_0 20 (trigger_secondary env st w))
           = Some buf"
  shows "map sint (acc (fst (IMU_readData env st w))) =
           [le_s16 (buf ! 14) (buf ! 15), le_s16 (buf ! 16) (buf ! 17), le_s16 (buf ! 18) (buf ! 19)]
       \<and> map sint (gyr (fst (IMU_readData env st w))) =
           [le_s16 (buf ! 8) (buf ! 9), le_s16 (buf ! 10) (buf ! 11), le_s16 (buf ! 12) (buf ! 13)]
       \<and> (mag_mode st = SECONDARY \<longrightarrow>
            map sint (mag (fst (IMU_readData env st w))) =
              [le_s16 (buf ! 0) (buf ! 1), le_s16 (buf ! 2) (buf ! 3), le_s16 (buf ! 4) (buf ! 5)]
            \<and> sint (rhall (fst (IMU_readData env st w))) = le_s16 (buf ! 6) (buf ! 7))
       \<and> (mag_mode st = NONE \<longrightarrow>
            mag (fst (IMU_readData env st w)) = [0, 0, 0] \<and> rhall (fst (IMU_readData env st w)) = 0)
       \<and> (mag_mode st = PRIMARY \<longrightarrow>
            (mag (fst (IMU_readData env st w)), rhall (fst (IMU_readData env st w))) =
              fst (read_bmm150_forced env st (snd (read_bmi160 env st w))))"
proof -
  have burst: "fst (read_bmi160 env st w) = burst_decode st buf"
    using assms by (simp add: read_bmi160_def split_def)
  show ?thesis
  proof (cases "mag_mode st")
    case NONE
    then show ?thesis
      using burst
      by (simp add: IMU_readData_def split_def Let_def burst_decode_def zero_sample_def
          sint_s16_or_byte)
  next
    case PRIMARY
    then show ?thesis
      using burst
      by (simp add: IMU_readData_def split_def Let_def burst_decode_def zero_sample_def
          sint_s16_or_byte)
  next
    case SECONDARY
    then show ?thesis
      using burst
      by (simp add: IMU_readData_def split_def Let_def burst_decode_def zero_sample_def
          sint_s16_or_byte)
  qed
qed

theorem burst_decode_offsets_witness:
  "map sint (acc (fst (IMU_readData bus_bridged st_bridged world0))) = [- 3855, - 4369, - 4883]
   \<and> map sint (gyr (fst (IMU_readData bus_bridged st_bridged world0))) = [- 2313, - 2827, - 3341]
   \<and> map sint (mag (fst (IMU_readData bus_bridged st_bridged world0))) = [- 257, - 771, - 1285]
   \<and> sint (rhall (fst (IMU_readData bus_bridged st_bridged world0))) = - 1799"
proof -
  have b: "bmi160_addr st_bridged \<noteq> 0"
    by (simp add: example_defs)
  have m: "mag_mode st_bridged = SECONDARY"
    by (simp add: example_defs)
  have rd: "fst (i2c_safe_read bus_bridged (bmi160_addr st_bridged) BMI160_DATA_0 20
               (trigger_secondary bus_bridged st_bridged world0))
            = Some [255, 254, 253, 252, 251, 250, 249, 248, 247, 246,
                    245, 244, 243, 242, 241, 240, 239, 238, 237, 236]"
    by (simp add: model_defs example_defs sim_io)
  show ?thesis
    using burst_decode_offsets [OF b rd] m
    by (simp add: le_s16_def)
qed

section \<open>Reading at a frequency\<close>

text \<open>The call without the list of its divisions, statement by statement.\<close>

lemma IMU_readDataWithFrequency_unfold:
  "IMU_readDataWithFrequency env interval out st w =
     (let w2 = push_max_odr env st w;
          current_time = millis env w2
      in if current_time - last_time st \<ge> interval then
           (if samples st > 0 then
              (out\<lparr>acc := [ucast (acc_sum st ! 0 div samples st),
                           ucast (acc_sum st ! 1 div samples st),
                           ucast (acc_sum st ! 2 div samples st)],
                    gyr := [ucast (gyr_sum st ! 0 div samples st),
                           ucast (gyr_sum st ! 1 div samples st),
                           ucast (gyr_sum st ! 2 div samples st)],
                    mag := [ucast (mag_sum st ! 0 div samples st),
                           ucast (mag_sum st ! 1 div samples st),
                           ucast (mag_sum st ! 2 div samples st)],
                    rhall := ucast (rhall_sum st div samples st)\<rparr>,
               st\<lparr>acc_sum := [0, 0, 0], gyr_sum := [0, 0, 0], mag_sum := [0, 0, 0],
                   rhall_sum := 0, samples := 0, last_time := current_time\<rparr>,
               w2)
            else (out, st\<lparr>last_time := current_time\<rparr>, w2))
         else
           (let (raw, w3) = IMU_readData env st w2
            in (out,
                st\<lparr>acc_sum := [acc_sum st ! 0 + scast (acc raw ! 0),
                               acc_sum st ! 1 + scast (acc raw ! 1),
                               acc_sum st ! 2 + scast (acc raw ! 2)],
                   gyr_sum := [gyr_sum st ! 0 + scast (gyr raw ! 0),
                               gyr_sum st ! 1 + scast (gyr raw ! 1),
                               gyr_sum st ! 2 + scast (gyr raw ! 2)],
                   mag_sum := [mag_sum st ! 0 + scast (mag raw ! 0),
                               mag_sum st ! 1 + scast (mag raw ! 1),
                               mag_sum st ! 2 + scast (mag raw ! 2)],
                   rhall_sum := rhall_sum st + scast (rhall raw),
                   samples := samples st + 1\<rparr>,
                w3)))"
  by (simp add: IMU_readDataWithFrequency_def IMU_readDataWithFrequency_traced_def divide_def
      Let_def split_def)

text \<open>
  The divisions of a call. A call that flushes executes ten divisions, one for each
  output, by the count of samples; a call that does not flush executes none. So the
  divisor of every division that a call executes is the count, and is not zero.
\<close>

lemma divisions_of_call:
  "fst (IMU_readDataWithFrequency_traced env interval out st w) =
     (if elapsed env interval st w \<and> samples st \<noteq> 0 then
        [(rhall_sum st, samples st),
         (mag_sum st ! 2, samples st), (mag_sum st ! 1, samples st), (mag_sum st ! 0, samples st),
         (gyr_sum st ! 2, samples st), (gyr_sum st ! 1, samples st), (gyr_sum st ! 0, samples st),
         (acc_sum st ! 2, samples st), (acc_sum st ! 1, samples st), (acc_sum st ! 0, samples st)]
      else [])"
  by (simp add: IMU_readDataWithFrequency_traced_def divide_def elapsed_def Let_def split_def
      word_gt_0)

lemma no_division_by_zero:
  assumes "(s, n) \<in> set (fst (IMU_readDataWithFrequency_traced env interval out st w))"
  shows "n = samples st \<and> n \<noteq> 0"
  using assms unfolding divisions_of_call
  by (auto split: if_splits)

text \<open>
  A flush, on any bus: when the interval has elapsed and the count is positive, the
  sums and the count are zero afterwards and the timestamp is the current time.
\<close>

lemma flush_empties_accumulator:
  assumes "elapsed env interval st w" and "samples st \<noteq> 0"
  shows "fst (snd (IMU_readDataWithFrequency env interval out st w)) =
           st\<lparr>acc_sum := [0, 0, 0], gyr_sum := [0, 0, 0], mag_sum := [0, 0, 0],
              rhall_sum := 0, samples := 0, last_time := millis env (push_max_odr env st w)\<rparr>"
  using assms
  by (simp add: IMU_readDataWithFrequency_unfold elapsed_def Let_def word_gt_0)

text \<open>
  C3. The claim: whenever a call flushes, every axis written to the caller's output is
  the integer-truncated mean of the samples accumulated since the previous flush, and
  the accumulator is empty afterwards. The code divides the signed 32-bit sum by the
  unsigned 32-bit count, which is an unsigned division. With a BMI160 whose axes all
  read \<open>-1\<close>, three calls inside a 20 ms interval accumulate the sums \<open>-3\<close> and the
  count 3, and the flushing call writes \<open>21844\<close> to every accelerometer and gyroscope
  axis, where the truncated mean is \<open>-1\<close>. The accumulator is empty after the flush.
\<close>

theorem flush_of_negative_sums:
  "(let (o1, s1, w1) = IMU_readDataWithFrequency bus_minus_one 20 zero_sample st_bmi (world_at 1);
        (o2, s2, w2) = IMU_readDataWithFrequency bus_minus_one 20 o1 s1 (world_at 2);
        (o3, s3, w3) = IMU_readDataWithFrequency bus_minus_one 20 o2 s2 (world_at 3);
        (o4, s4, w4) = IMU_readDataWithFrequency bus_minus_one 20 o3 s3 (world_at 25)
    in map sint (acc_sum s3) = [- 3, - 3, - 3] \<and> samples s3 = 3
       \<and> map sint (acc o4) = [21844, 21844, 21844]
       \<and> map sint (gyr o4) = [21844, 21844, 21844]
       \<and> acc_sum s4 = [0, 0, 0] \<and> gyr_sum s4 = [0, 0, 0] \<and> mag_sum s4 = [0, 0, 0]
       \<and> rhall_sum s4 = 0 \<and> samples s4 = 0)
   \<and> trunc_div (- 3) 3 = - 1"
  by code_simp




text \<open>
  C5. On a call on which the interval has not elapsed, or has elapsed with a sample
  count of zero, the caller's four buffers are returned as they were passed, and the
  call executes no division: the list of its divisions is empty. In the second case
  the accumulator is left as it was and only the timestamp is renewed. The division
  is guarded by \<^verbatim>\<open>samples > 0\<close>: no call divides by zero (lemma
  \<open>no_division_by_zero\<close>).
\<close>

theorem output_untouched_without_flush:
  assumes "\<not> elapsed env interval st w \<or> samples st = 0"
  shows "fst (IMU_readDataWithFrequency env interval out st w) = out
       \<and> (elapsed env interval st w \<longrightarrow>
            fst (snd (IMU_readDataWithFrequency env interval out st w)) =
              st\<lparr>last_time := millis env (push_max_odr env st w)\<rparr>)
       \<and> fst (IMU_readDataWithFrequency_traced env interval out st w) = []"
proof -
  have "fst (IMU_readDataWithFrequency_traced env interval out st w) = []"
    using assms by (auto simp: divisions_of_call)
  moreover have "fst (IMU_readDataWithFrequency env interval out st w) = out"
    using assms
    by (auto simp: IMU_readDataWithFrequency_unfold elapsed_def Let_def split_def)
  moreover have "elapsed env interval st w \<longrightarrow>
      fst (snd (IMU_readDataWithFrequency env interval out st w)) =
        st\<lparr>last_time := millis env (push_max_odr env st w)\<rparr>"
    using assms
    by (auto simp: IMU_readDataWithFrequency_unfold elapsed_def Let_def split_def)
  ultimately show ?thesis
    by simp
qed

text \<open>
  Inside the interval, and at its end with nothing accumulated, the buffers come back
  as passed and no division is executed; at the end of the interval with three
  samples accumulated the same call executes its ten divisions, by three.
\<close>

theorem output_untouched_without_flush_witness:
  "fst (IMU_readDataWithFrequency bus_minus_one 20 out7 st_bmi (world_at 1)) = out7
   \<and> fst (IMU_readDataWithFrequency bus_minus_one 20 out7 st_bmi (world_at 25)) = out7
   \<and> fst (IMU_readDataWithFrequency_traced bus_minus_one 20 out7 st_bmi (world_at 1)) = []
   \<and> fst (IMU_readDataWithFrequency_traced bus_minus_one 20 out7 st_bmi (world_at 25)) = []
   \<and> map (\<lambda>(s, n). (sint s, unat n))
        (fst (IMU_readDataWithFrequency_traced bus_minus_one 20 out7
               (st_bmi\<lparr>acc_sum := [- 3, - 3, - 3], samples := 3\<rparr>) (world_at 25))) =
      [(0, 3), (0, 3), (0, 3), (0, 3), (0, 3), (0, 3), (0, 3), (- 3, 3), (- 3, 3), (- 3, 3)]"
proof -
  have h1: "\<not> elapsed bus_minus_one 20 st_bmi (world_at 1) \<or> samples st_bmi = 0"
    by code_simp
  have h2: "\<not> elapsed bus_minus_one 20 st_bmi (world_at 25) \<or> samples st_bmi = 0"
    by code_simp
  have f: "map (\<lambda>(s, n). (sint s, unat n))
        (fst (IMU_readDataWithFrequency_traced bus_minus_one 20 out7
               (st_bmi\<lparr>acc_sum := [- 3, - 3, - 3], samples := 3\<rparr>) (world_at 25))) =
      [(0, 3), (0, 3), (0, 3), (0, 3), (0, 3), (0, 3), (0, 3), (- 3, 3), (- 3, 3), (- 3, 3)]"
    by code_simp
  show ?thesis
    using output_untouched_without_flush [OF h1, of out7]
      output_untouched_without_flush [OF h2, of out7] f
    by simp
qed

section \<open>Conversion factors\<close>

lemma update_conversion_factors_fields [simp]:
  "bmi160_addr (update_conversion_factors st) = bmi160_addr st"
  "bmm150_addr (update_conversion_factors st) = bmm150_addr st"
  "mag_mode (update_conversion_factors st) = mag_mode st"
  "initialized (update_conversion_factors st) = initialized st"
  "config (update_conversion_factors st) = config st"
  by (simp_all add: update_conversion_factors_def Let_def)

lemma update_conversion_factors_acc:
  "acc_lsb_doc (acc_range (config st)) \<noteq> None \<Longrightarrow>
   acc_lsb_doc (acc_range (config st)) = Some (ACC_LSB (update_conversion_factors st))"
  by (simp add: update_conversion_factors_def acc_lsb_doc_def Let_def split: if_splits)

lemma update_conversion_factors_gyr:
  "gyr_lsb_doc (gyr_range (config st)) \<noteq> None \<Longrightarrow>
   gyr_lsb_doc (gyr_range (config st)) = Some (GYR_LSB (update_conversion_factors st))"
  by (simp add: update_conversion_factors_def gyr_lsb_doc_def Let_def split: if_splits)

lemma update_conversion_factors_consistent:
  "factors_consistent st \<Longrightarrow> factors_consistent (update_conversion_factors st)"
  unfolding factors_consistent_def
  using update_conversion_factors_acc [of st] update_conversion_factors_gyr [of st]
  by simp

section \<open>Device discovery\<close>

subsection \<open>What discovery changes in the statics\<close>

lemma find_bmi160_result:
  "fst (find_bmi160 env cs st w) = st
   \<or> (\<exists>c \<in> set cs. fst (find_bmi160 env cs st w) = st\<lparr>bmi160_addr := c\<rparr>)"
  by (induction cs arbitrary: w) (auto simp: Let_def split_def)

lemma setup_bmi160_fst:
  "fst (setup_bmi160 env dbg st w) =
     (if bmi160_addr st \<noteq> 0 then update_conversion_factors st else st)"
  by (simp add: setup_bmi160_def Let_def split_def)

lemma word_le_succ:
  fixes a m :: u8
  assumes "a \<le> 0x7F" and "a + 1 \<le> m"
  shows "a \<le> m"
proof -
  from assms(1) have "unat (a + 1) = Suc (unat a)"
    by (simp add: unat_word_ariths word_le_nat_alt)
  with assms(2) show ?thesis
    by (simp add: word_le_nat_alt)
qed

lemma scan_primary_result:
  "fst (scan_primary env a st w) = st
   \<or> (\<exists>m. a \<le> m \<and> m \<le> 0x13
        \<and> fst (scan_primary env a st w) = st\<lparr>bmm150_addr := m, mag_mode := PRIMARY\<rparr>)"
proof (induction env a st w rule: scan_primary.induct)
  case (1 env addr st w)
  show ?case
  proof (cases "addr \<le> 0x13")
    case False
    then show ?thesis
      by (simp add: scan_primary.simps [of env addr])
  next
    case le: True
    obtain ok w1 where i: "init_bmm150_primary env addr w = (ok, w1)"
      by fastforce
    show ?thesis
    proof (cases ok)
      case True
      with le i have "fst (scan_primary env addr st w) = st\<lparr>bmm150_addr := addr, mag_mode := PRIMARY\<rparr>"
        by (simp add: scan_primary.simps [of env addr])
      with le show ?thesis by blast
    next
      case False
      with le i have eq: "scan_primary env addr st w = scan_primary env (addr + 1) st w1"
        by (simp add: scan_primary.simps [of env addr])
      from le have le': "addr \<le> 0x7F"
        by (simp add: word_le_nat_alt)
      from "1.IH" [OF le i [symmetric] refl] False
      have "fst (scan_primary env (addr + 1) st w1) = st
        \<or> (\<exists>m. addr + 1 \<le> m \<and> m \<le> 0x13
             \<and> fst (scan_primary env (addr + 1) st w1) = st\<lparr>bmm150_addr := m, mag_mode := PRIMARY\<rparr>)"
        by simp
      then show ?thesis
        unfolding eq using word_le_succ [OF le'] by blast
    qed
  qed
qed

lemma scan_secondary_result:
  "fst (scan_secondary env a st w) = st
   \<or> (\<exists>m. a \<le> m \<and> m \<le> 0x13
        \<and> fst (scan_secondary env a st w) = st\<lparr>bmm150_addr := m, mag_mode := SECONDARY\<rparr>)"
proof (induction env a st w rule: scan_secondary.induct)
  case (1 env addr st w)
  show ?case
  proof (cases "addr \<le> 0x13")
    case False
    then show ?thesis
      by (simp add: scan_secondary.simps [of env addr])
  next
    case le: True
    obtain ok w1 where i: "init_bmm150_secondary env st addr w = (ok, w1)"
      by fastforce
    show ?thesis
    proof (cases ok)
      case True
      with le i have "fst (scan_secondary env addr st w) = st\<lparr>bmm150_addr := addr, mag_mode := SECONDARY\<rparr>"
        by (simp add: scan_secondary.simps [of env addr])
      with le show ?thesis by blast
    next
      case False
      with le i have eq: "scan_secondary env addr st w = scan_secondary env (addr + 1) st w1"
        by (simp add: scan_secondary.simps [of env addr])
      from le have le': "addr \<le> 0x7F"
        by (simp add: word_le_nat_alt)
      from "1.IH" [OF le i [symmetric] refl] False
      have "fst (scan_secondary env (addr + 1) st w1) = st
        \<or> (\<exists>m. addr + 1 \<le> m \<and> m \<le> 0x13
             \<and> fst (scan_secondary env (addr + 1) st w1) = st\<lparr>bmm150_addr := m, mag_mode := SECONDARY\<rparr>)"
        by simp
      then show ?thesis
        unfolding eq using word_le_succ [OF le'] by blast
    qed
  qed
qed

subsection \<open>The history of the helpers\<close>

lemma history_on_hw [simp]: "history (snd (on_hw f w)) = history w"
  by (simp add: on_hw_def split_def Let_def)

lemma history_logged [simp]: "history (logged e w) = e # history w"
  by (simp add: logged_def)

lemma history_read_bytes [simp]: "history (snd (read_bytes env is w)) = history w"
  by (induction "is" arbitrary: w) (simp_all add: split_def Let_def)

lemma history_i2c_device_exists:
  "history (snd (i2c_device_exists env a r w)) =
     Probe a r (fst (i2c_device_exists env a r w)) # history w"
  by (simp add: i2c_device_exists_def split_def Let_def)

lemma history_i2c_device_exists_nullptr:
  "history (snd (i2c_device_exists_nullptr env a r w)) =
     Ack a r (fst (i2c_device_exists_nullptr env a r w)) # history w"
  by (simp add: i2c_device_exists_nullptr_def split_def Let_def)

lemma history_i2c_safe_write:
  "history (snd (i2c_safe_write env a r v w)) =
     Write a r v (fst (i2c_safe_write env a r v w)) # history w"
  by (simp add: i2c_safe_write_def split_def Let_def)

lemma history_i2c_safe_read:
  "history (snd (i2c_safe_read env a r n w)) =
     Read a r n (fst (i2c_safe_read env a r n w))
       # Ack a 0x00 (fst (i2c_device_exists_nullptr env a 0x00 w)) # history w"
  by (simp add: i2c_safe_read_def split_def Let_def history_i2c_device_exists_nullptr)

lemma history_delay: "history (delay env ms w) = Delay ms # history w"
  by (simp add: delay_def)

lemma sweep_ran_probe [simp]:
  "sweep_ran (snd (i2c_device_exists env a r w)) \<longleftrightarrow> r = BMM150_CHIP_ID \<or> sweep_ran w"
  by (simp add: sweep_ran_def history_i2c_device_exists)

lemma sweep_ran_write [simp]:
  "sweep_ran (snd (i2c_safe_write env a r v w)) = sweep_ran w"
  by (simp add: sweep_ran_def history_i2c_safe_write)

lemma sweep_ran_read [simp]:
  "sweep_ran (snd (i2c_safe_read env a r n w)) = sweep_ran w"
  by (simp add: sweep_ran_def history_i2c_safe_read)

lemma sweep_ran_delay [simp]: "sweep_ran (delay env ms w) = sweep_ran w"
  by (simp add: sweep_ran_def history_delay)

lemma sweep_ran_write_then:
  assumes "\<And>w'. sweep_ran (snd (k w')) = sweep_ran w'"
  shows "sweep_ran (snd (write_then env a r v ms k w)) = sweep_ran w"
  by (simp add: write_then_def split_def Let_def assms)

lemma sweep_ran_wait_mag_data [simp]:
  "sweep_ran (snd (wait_mag_data env bmi i w)) = sweep_ran w"
proof (induction env bmi i w rule: wait_mag_data.induct)
  case (1 env bmi i w)
  show ?case
  proof (cases "i < 200")
    case False
    then show ?thesis
      by (simp add: wait_mag_data.simps [of env bmi i])
  next
    case True
    obtain s w1 where s: "i2c_safe_read env bmi BMI160_STATUS 1 w = (s, w1)"
      by fastforce
    obtain d w2 where d: "i2c_safe_read env bmi BMI160_DATA_0 8 w1 = (d, w2)"
      by fastforce
    have w1: "sweep_ran w1 = sweep_ran w"
      using sweep_ran_read [of env bmi BMI160_STATUS 1 w] unfolding s by simp
    have w2: "sweep_ran w2 = sweep_ran w1"
      using sweep_ran_read [of env bmi BMI160_DATA_0 8 w1] unfolding d by simp
    show ?thesis
    proof (cases "drdy_mag s")
      case False
      with True s "1.IH"(3) [OF True s [symmetric] refl] w1 show ?thesis
        by (simp add: wait_mag_data.simps [of env bmi i])
    next
      case rdy: True
      show ?thesis
      proof (cases d)
        case None
        with True s d rdy "1.IH"(1) [OF True s [symmetric] refl rdy d [symmetric] refl] w1 w2
        show ?thesis
          by (simp add: wait_mag_data.simps [of env bmi i])
      next
        case (Some data)
        with True s d rdy "1.IH"(2) [OF True s [symmetric] refl rdy d [symmetric] refl] w1 w2
        show ?thesis
          by (simp add: wait_mag_data.simps [of env bmi i])
      qed
    qed
  qed
qed

lemma sweep_ran_init_bmm150_primary [simp]:
  "sweep_ran (snd (init_bmm150_primary env addr w)) = sweep_ran w"
  by (simp add: init_bmm150_primary_def Let_def split_def split: option.splits)

lemma sweep_ran_init_bmm150_secondary [simp]:
  "sweep_ran (snd (init_bmm150_secondary env st addr w)) = sweep_ran w"
  by (simp add: init_bmm150_secondary_def Let_def split_def sweep_ran_write_then
      split: option.splits)

lemma sweep_ran_find_bmi160 [simp]:
  "sweep_ran (snd (find_bmi160 env cs st w)) = sweep_ran w"
  by (induction cs arbitrary: w) (simp_all add: Let_def split_def)

lemma sweep_ran_setup_bmi160 [simp]:
  "sweep_ran (snd (setup_bmi160 env dbg st w)) = sweep_ran w"
  by (simp add: setup_bmi160_def Let_def split_def)

lemma sweep_ran_scan_primary [simp]:
  "sweep_ran (snd (scan_primary env a st w)) = sweep_ran w"
proof (induction env a st w rule: scan_primary.induct)
  case (1 env addr st w)
  show ?case
  proof (cases "addr \<le> 0x13")
    case False
    then show ?thesis
      by (simp add: scan_primary.simps [of env addr])
  next
    case le: True
    obtain ok w1 where i: "init_bmm150_primary env addr w = (ok, w1)"
      by fastforce
    have w1: "sweep_ran w1 = sweep_ran w"
      using sweep_ran_init_bmm150_primary [of env addr w] unfolding i by simp
    show ?thesis
    proof (cases ok)
      case True
      with le i w1 show ?thesis
        by (simp add: scan_primary.simps [of env addr])
    next
      case False
      with le i w1 "1.IH" [OF le i [symmetric] refl] show ?thesis
        by (simp add: scan_primary.simps [of env addr])
    qed
  qed
qed

lemma sweep_ran_scan_secondary [simp]:
  "sweep_ran (snd (scan_secondary env a st w)) = sweep_ran w"
proof (induction env a st w rule: scan_secondary.induct)
  case (1 env addr st w)
  show ?case
  proof (cases "addr \<le> 0x13")
    case False
    then show ?thesis
      by (simp add: scan_secondary.simps [of env addr])
  next
    case le: True
    obtain ok w1 where i: "init_bmm150_secondary env st addr w = (ok, w1)"
      by fastforce
    have w1: "sweep_ran w1 = sweep_ran w"
      using sweep_ran_init_bmm150_secondary [of env st addr w] unfolding i by simp
    show ?thesis
    proof (cases ok)
      case True
      with le i w1 show ?thesis
        by (simp add: scan_secondary.simps [of env addr])
    next
      case False
      with le i w1 "1.IH" [OF le i [symmetric] refl] show ?thesis
        by (simp add: scan_secondary.simps [of env addr])
    qed
  qed
qed

lemma sweep_ran_discover_direct [simp]:
  "sweep_ran (snd (discover_direct env dbg st w)) = sweep_ran w"
  by (simp add: discover_direct_def Let_def split_def)

subsection \<open>The sweep\<close>

lemma sweep_ran_scan_all_mono:
  "sweep_ran w \<Longrightarrow> sweep_ran (snd (scan_all env a st w))"
proof (induction env a st w rule: scan_all.induct)
  case (1 env addr st w)
  show ?case
  proof (cases "addr \<le> 0x7F")
    case False
    with "1.prems" show ?thesis
      by (simp add: scan_all.simps [of env addr])
  next
    case le: True
    obtain r w1 where i: "i2c_device_exists env addr BMM150_CHIP_ID w = (r, w1)"
      by fastforce
    have w1: "sweep_ran w1"
      using sweep_ran_probe [of env addr BMM150_CHIP_ID w] unfolding i by simp
    show ?thesis
    proof (cases "r = Some 0x32")
      case True
      with le i w1 show ?thesis
        by (simp add: scan_all.simps [of env addr])
    next
      case False
      with le i "1.IH" [OF le i [symmetric] refl _ w1] show ?thesis
        by (simp add: scan_all.simps [of env addr])
    qed
  qed
qed

lemma sweep_ran_scan_all: "sweep_ran (snd (scan_all env 0x00 st w))"
proof -
  obtain r w1 where i: "i2c_device_exists env 0x00 BMM150_CHIP_ID w = (r, w1)"
    by fastforce
  have w1: "sweep_ran w1"
    using sweep_ran_probe [of env 0 BMM150_CHIP_ID w] unfolding i by simp
  show ?thesis
    using i w1 sweep_ran_scan_all_mono [where env = env and a = 1 and st = st, OF w1]
    by (simp add: scan_all.simps [of env 0])
qed

lemma sweep_matched_at_probe:
  "sweep_matched_at (snd (i2c_device_exists env a BMM150_CHIP_ID w)) x \<longleftrightarrow>
     (x = a \<and> fst (i2c_device_exists env a BMM150_CHIP_ID w) = Some 0x32) \<or> sweep_matched_at w x"
  by (auto simp: sweep_matched_at_def history_i2c_device_exists)

lemma not_swept_not_matched: "\<not> sweep_ran w \<Longrightarrow> \<not> sweep_matched_at w x"
  by (auto simp: sweep_ran_def sweep_matched_at_def list_ex_iff)

lemma scan_all_result:
  assumes "\<forall>x. \<not> sweep_matched_at w x"
  shows "(fst (scan_all env a st w) = st
            \<and> (\<forall>x. \<not> sweep_matched_at (snd (scan_all env a st w)) x))
       \<or> (\<exists>m. a \<le> m \<and> m \<le> 0x7F
             \<and> fst (scan_all env a st w) = st\<lparr>bmm150_addr := m, mag_mode := PRIMARY\<rparr>
             \<and> (\<forall>x. sweep_matched_at (snd (scan_all env a st w)) x \<longleftrightarrow> x = m))"
  using assms
proof (induction env a st w rule: scan_all.induct)
  case (1 env addr st w)
  show ?case
  proof (cases "addr \<le> 0x7F")
    case False
    with "1.prems" show ?thesis
      by (simp add: scan_all.simps [of env addr])
  next
    case le: True
    obtain r w1 where i: "i2c_device_exists env addr BMM150_CHIP_ID w = (r, w1)"
      by fastforce
    have m1: "sweep_matched_at w1 x \<longleftrightarrow> (x = addr \<and> r = Some 0x32)" for x
      using sweep_matched_at_probe [of env addr w x] "1.prems" unfolding i by simp
    show ?thesis
    proof (cases "r = Some 0x32")
      case True
      with le i have "scan_all env addr st w = (st\<lparr>bmm150_addr := addr, mag_mode := PRIMARY\<rparr>, w1)"
        by (simp add: scan_all.simps [of env addr])
      with le m1 True show ?thesis
        by auto
    next
      case False
      with le i have eq: "scan_all env addr st w = scan_all env (addr + 1) st w1"
        by (simp add: scan_all.simps [of env addr])
      from False m1 have "\<forall>x. \<not> sweep_matched_at w1 x"
        by simp
      from "1.IH" [OF le i [symmetric] refl False this]
      show ?thesis
        unfolding eq using word_le_succ [OF le] by blast
    qed
  qed
qed

lemma sweep_probed_probe:
  "sweep_probed (snd (i2c_device_exists env a BMM150_CHIP_ID w)) x \<longleftrightarrow> x = a \<or> sweep_probed w x"
  by (auto simp: sweep_probed_def history_i2c_device_exists)

lemma sweep_probed_scan_all_mono:
  "sweep_probed w x \<Longrightarrow> sweep_probed (snd (scan_all env a st w)) x"
proof (induction env a st w rule: scan_all.induct)
  case (1 env addr st w)
  show ?case
  proof (cases "addr \<le> 0x7F")
    case False
    with "1.prems" show ?thesis
      by (simp add: scan_all.simps [of env addr])
  next
    case le: True
    obtain r w1 where i: "i2c_device_exists env addr BMM150_CHIP_ID w = (r, w1)"
      by fastforce
    have w1: "sweep_probed w1 x"
      using sweep_probed_probe [of env addr w x] "1.prems" unfolding i by simp
    show ?thesis
    proof (cases "r = Some 0x32")
      case True
      with le i w1 show ?thesis
        by (simp add: scan_all.simps [of env addr])
    next
      case False
      with le i "1.IH" [OF le i [symmetric] refl _ w1] show ?thesis
        by (simp add: scan_all.simps [of env addr])
    qed
  qed
qed

lemma word_le_cases:
  fixes a x :: u8
  assumes "a \<le> x" and "a \<le> 0x7F"
  shows "x = a \<or> a + 1 \<le> x"
proof -
  from assms(2) have "unat (a + 1) = Suc (unat a)"
    by (simp add: unat_word_ariths word_le_nat_alt)
  with assms(1) show ?thesis
    by (auto simp: word_le_nat_alt word_unat_eq_iff)
qed

lemma scan_all_probes:
  assumes "\<forall>m. \<not> sweep_matched_at w m"
    and "a \<le> x" and "x \<le> 0x7F"
    and "\<forall>m. sweep_matched_at (snd (scan_all env a st w)) m \<longrightarrow> x \<le> m"
  shows "sweep_probed (snd (scan_all env a st w)) x"
  using assms
proof (induction env a st w rule: scan_all.induct)
  case (1 env addr st w)
  from "1.prems"(2,3) have le: "addr \<le> 0x7F"
    by simp
  obtain r w1 where i: "i2c_device_exists env addr BMM150_CHIP_ID w = (r, w1)"
    by fastforce
  have p1: "sweep_probed w1 addr"
    using sweep_probed_probe [of env addr w addr] unfolding i by simp
  have m1: "sweep_matched_at w1 m \<longleftrightarrow> (m = addr \<and> r = Some 0x32)" for m
    using sweep_matched_at_probe [of env addr w m] "1.prems"(1) unfolding i by simp
  show ?case
  proof (cases "r = Some 0x32")
    case True
    with le i have eq: "scan_all env addr st w = (st\<lparr>bmm150_addr := addr, mag_mode := PRIMARY\<rparr>, w1)"
      by (simp add: scan_all.simps [of env addr])
    from "1.prems"(4) m1 True have "x \<le> addr"
      unfolding eq by simp
    with "1.prems"(2) have "x = addr"
      by simp
    with p1 show ?thesis
      unfolding eq by simp
  next
    case False
    with le i have eq: "scan_all env addr st w = scan_all env (addr + 1) st w1"
      by (simp add: scan_all.simps [of env addr])
    from False m1 have nm: "\<forall>m. \<not> sweep_matched_at w1 m"
      by simp
    from word_le_cases [OF "1.prems"(2) le] show ?thesis
    proof
      assume "x = addr"
      with p1 sweep_probed_scan_all_mono [of w1 addr env "addr + 1" st] show ?thesis
        unfolding eq by simp
    next
      assume "addr + 1 \<le> x"
      from "1.IH" [OF le i [symmetric] refl False nm this "1.prems"(3)] "1.prems"(4)
      show ?thesis
        unfolding eq by simp
    qed
  qed
qed

subsection \<open>The outcomes of discovery from power-on\<close>

lemma ge_0x10_nonzero: "(0x10 :: u8) \<le> m \<Longrightarrow> m \<noteq> 0"
  by auto

lemma discover_direct_power_on:
  obtains
    (none) "mag_mode (fst (discover_direct env dbg power_on w)) = NONE"
      "bmm150_addr (fst (discover_direct env dbg power_on w)) = 0"
      "\<not> initialized (fst (discover_direct env dbg power_on w))"
  | (direct) "mag_mode (fst (discover_direct env dbg power_on w)) = PRIMARY"
      "0x10 \<le> bmm150_addr (fst (discover_direct env dbg power_on w))"
      "bmm150_addr (fst (discover_direct env dbg power_on w)) \<le> 0x13"
      "\<not> initialized (fst (discover_direct env dbg power_on w))"
proof -
  let ?f = "find_bmi160 env [BMI160_ADDR_68, BMI160_ADDR_69] power_on w"
  let ?s = "setup_bmi160 env dbg (fst ?f) (snd ?f)"
  have dd: "discover_direct env dbg power_on w = scan_primary env 0x10 (fst ?s) (snd ?s)"
    by (simp add: discover_direct_def Let_def split_def)
  have f: "mag_mode (fst ?f) = NONE" "bmm150_addr (fst ?f) = 0" "\<not> initialized (fst ?f)"
    using find_bmi160_result [of env "[BMI160_ADDR_68, BMI160_ADDR_69]" power_on w]
    by (auto simp: power_on_def)
  have s: "mag_mode (fst ?s) = NONE" "bmm150_addr (fst ?s) = 0" "\<not> initialized (fst ?s)"
    using f by (simp_all add: setup_bmi160_fst)
  from scan_primary_result [of env "0x10" "fst ?s" "snd ?s"]
  show thesis
  proof
    assume "fst (scan_primary env 0x10 (fst ?s) (snd ?s)) = fst ?s"
    with s dd show thesis
      by (intro none) simp_all
  next
    assume "\<exists>m\<ge>0x10. m \<le> 0x13 \<and> fst (scan_primary env 0x10 (fst ?s) (snd ?s)) =
      fst ?s\<lparr>bmm150_addr := m, mag_mode := PRIMARY\<rparr>"
    then obtain m where "0x10 \<le> m" "m \<le> 0x13"
      and "fst (scan_primary env 0x10 (fst ?s) (snd ?s)) = fst ?s\<lparr>bmm150_addr := m, mag_mode := PRIMARY\<rparr>"
      by blast
    with s dd show thesis
      by (intro direct) simp_all
  qed
qed

lemma begin_outcomes:
  assumes fresh: "\<not> sweep_ran w"
    and d: "discover_direct env dbg power_on w = (st3, w3)"
    and s: "scan_secondary env 0x10 st3 w3 = (st4, w4)"
    and b: "IMU_begin env dbg power_on w = (r, st', w')"
  shows "r = initialized st' \<and> bmi160_addr st' = bmi160_addr st3 \<and>
    ((mag_mode st3 = PRIMARY \<and> \<not> sweep_ran w' \<and> mag_mode st' = PRIMARY
        \<and> 0x10 \<le> bmm150_addr st' \<and> bmm150_addr st' \<le> 0x13 \<and> initialized st')
     \<or> (bmi160_addr st3 = 0 \<and> mag_mode st3 = NONE \<and> \<not> sweep_ran w' \<and> mag_mode st' = NONE
        \<and> bmm150_addr st' = 0 \<and> \<not> initialized st')
     \<or> (bmi160_addr st3 \<noteq> 0 \<and> mag_mode st3 = NONE \<and> mag_mode st4 = SECONDARY \<and> \<not> sweep_ran w'
        \<and> mag_mode st' = SECONDARY
        \<and> 0x10 \<le> bmm150_addr st' \<and> bmm150_addr st' \<le> 0x13 \<and> initialized st')
     \<or> (bmi160_addr st3 \<noteq> 0 \<and> mag_mode st3 = NONE \<and> mag_mode st4 = NONE \<and> sweep_ran w'
        \<and> ((mag_mode st' = NONE \<and> bmm150_addr st' = 0 \<and> \<not> initialized st'
              \<and> (\<forall>x. \<not> sweep_matched_at w' x))
            \<or> (mag_mode st' = PRIMARY \<and> bmm150_addr st' \<le> 0x7F
              \<and> (\<forall>x. sweep_matched_at w' x \<longleftrightarrow> x = bmm150_addr st')
              \<and> (initialized st' \<longleftrightarrow> bmm150_addr st' \<noteq> 0)))
        \<and> (\<forall>x. x \<le> 0x7F \<and> (\<forall>m. sweep_matched_at w' m \<longrightarrow> x \<le> m) \<longrightarrow> sweep_probed w' x)))"
proof -
  have w3: "\<not> sweep_ran w3"
    using sweep_ran_discover_direct [of env dbg power_on w] fresh unfolding d by simp
  have w4: "\<not> sweep_ran w4"
    using sweep_ran_scan_secondary [of env "0x10" st3 w3] w3 unfolding s by simp
  have st3: "(mag_mode st3 = NONE \<and> bmm150_addr st3 = 0
        \<or> mag_mode st3 = PRIMARY \<and> 0x10 \<le> bmm150_addr st3 \<and> bmm150_addr st3 \<le> 0x13)
      \<and> \<not> initialized st3"
    using discover_direct_power_on [of env dbg w] unfolding d by (metis fst_conv)
  have st4: "st4 = st3
      \<or> (\<exists>m. 0x10 \<le> m \<and> m \<le> 0x13 \<and> st4 = st3\<lparr>bmm150_addr := m, mag_mode := SECONDARY\<rparr>)"
    using scan_secondary_result [of env "0x10" st3 w3] unfolding s by auto
  show ?thesis
  proof (cases "bmi160_addr st3 \<noteq> 0 \<and> bmm150_addr st3 = 0")
    case False
    with b d have "w' = w3"
      "st' = (if bmm150_addr st3 = 0 then st3 else st3\<lparr>initialized := True\<rparr>)"
      "r = initialized st'"
      by (auto simp: IMU_begin_def Let_def split: if_splits)
    with False w3 st3 ge_0x10_nonzero [of "bmm150_addr st3"] show ?thesis
      by auto
  next
    case c: True
    show ?thesis
    proof (cases "bmm150_addr st4 = 0")
      case False
      with b d s c have "w' = w4" "st' = st4\<lparr>initialized := True\<rparr>" "r = initialized st'"
        by (auto simp: IMU_begin_def Let_def split: if_splits)
      moreover from False c st4
      have "\<exists>m. 0x10 \<le> m \<and> m \<le> 0x13 \<and> st4 = st3\<lparr>bmm150_addr := m, mag_mode := SECONDARY\<rparr>"
        by auto
      ultimately show ?thesis
        using w4 c st3 by auto
    next
      case z: True
      obtain st5 w5 where a: "scan_all env 0x00 st4 w4 = (st5, w5)"
        by fastforce
      from b d s c z a have fin: "w' = w5"
        "st' = (if bmm150_addr st5 = 0 then st5 else st5\<lparr>initialized := True\<rparr>)"
        "r = initialized st'"
        by (auto simp: IMU_begin_def Let_def split: if_splits)
      have ran: "sweep_ran w5"
        using sweep_ran_scan_all [of env st4 w4] unfolding a by simp
      from z c st4 ge_0x10_nonzero have eq4: "st4 = st3"
        by auto
      with c st3 have none: "mag_mode st4 = NONE" "mag_mode st3 = NONE"
        by auto
      have nm4: "\<forall>x. \<not> sweep_matched_at w4 x"
        using w4 not_swept_not_matched by blast
      have probes: "\<forall>x. x \<le> 0x7F \<and> (\<forall>m. sweep_matched_at w5 m \<longrightarrow> x \<le> m) \<longrightarrow> sweep_probed w5 x"
        using scan_all_probes [OF nm4, of 0 _ env st4] unfolding a by simp
      from scan_all_result [OF nm4, of env 0 st4] a eq4
      have "(st5 = st3 \<and> (\<forall>x. \<not> sweep_matched_at w5 x))
          \<or> (\<exists>m. m \<le> 0x7F \<and> st5 = st3\<lparr>bmm150_addr := m, mag_mode := PRIMARY\<rparr>
                \<and> (\<forall>x. sweep_matched_at w5 x \<longleftrightarrow> x = m))"
        by auto
      then show ?thesis
      proof
        assume "st5 = st3 \<and> (\<forall>x. \<not> sweep_matched_at w5 x)"
        with fin ran none c st3 probes show ?thesis
          by auto
      next
        assume "\<exists>m. m \<le> 0x7F \<and> st5 = st3\<lparr>bmm150_addr := m, mag_mode := PRIMARY\<rparr>
                \<and> (\<forall>x. sweep_matched_at w5 x \<longleftrightarrow> x = m)"
        then obtain m where m: "m \<le> 0x7F" "st5 = st3\<lparr>bmm150_addr := m, mag_mode := PRIMARY\<rparr>"
          "\<forall>x. sweep_matched_at w5 x \<longleftrightarrow> x = m"
          by blast
        from fin(2) m(2) st3 have "mag_mode st' = PRIMARY" "bmm150_addr st' = m"
          "initialized st' \<longleftrightarrow> m \<noteq> 0" "bmi160_addr st' = bmi160_addr st3"
          by auto
        with fin(1,3) m(1,3) ran none c probes show ?thesis
          by auto
      qed
    qed
  qed
qed


text \<open>
  C8. From power-on, on a bus whose history holds no sweep probe yet, the sweep runs
  during \<^verbatim>\<open>IMU_begin\<close> exactly when the BMI160 was found, the search on the main bus
  found no magnetometer and the search through the BMI160 found none. It does not run
  when the search on the main bus found the magnetometer, nor when the BMI160 is absent.
  When a probe of the sweep is answered with the identity \<open>0x32\<close>, the mode is Direct
  (\<^verbatim>\<open>PRIMARY\<close>) and the magnetometer address is the address of that probe. When
  the sweep runs it probes every address from 0 up to the one that matches, and all
  128 of them when none matches.
\<close>

theorem sweep_runs_iff:
  assumes "\<not> sweep_ran w"
  shows "(let (st3, w3) = discover_direct env dbg power_on w;
              (st4, w4) = scan_secondary env 0x10 st3 w3;
              (r, st', w') = IMU_begin env dbg power_on w
          in (sweep_ran w' \<longleftrightarrow> bmi160_addr st3 \<noteq> 0 \<and> mag_mode st3 = NONE \<and> mag_mode st4 = NONE)
             \<and> (mag_mode st3 \<noteq> NONE \<longrightarrow> \<not> sweep_ran w')
             \<and> (bmi160_addr st' = 0 \<longrightarrow> \<not> sweep_ran w')
             \<and> (\<forall>a. sweep_matched_at w' a \<longrightarrow> mag_mode st' = PRIMARY \<and> bmm150_addr st' = a)
             \<and> (sweep_ran w' \<longrightarrow>
                  (\<forall>x. x \<le> 0x7F \<and> (\<forall>m. sweep_matched_at w' m \<longrightarrow> x \<le> m) \<longrightarrow> sweep_probed w' x)))"
proof -
  obtain st3 w3 where d: "discover_direct env dbg power_on w = (st3, w3)"
    by fastforce
  obtain st4 w4 where s: "scan_secondary env 0x10 st3 w3 = (st4, w4)"
    by fastforce
  obtain r st' w' where b: "IMU_begin env dbg power_on w = (r, st', w')"
    using prod_cases3 by blast
  from begin_outcomes [OF assms d s b] not_swept_not_matched [of w'] show ?thesis
    by (auto simp: d s b)
qed


theorem sweep_runs_iff_witness:
  "\<not> sweep_ran world0
   \<and> sweep_ran (snd (snd (IMU_begin bus_swept False power_on world0)))
   \<and> sweep_matched_at (snd (snd (IMU_begin bus_swept False power_on world0))) 0x14
   \<and> mag_mode (fst (snd (IMU_begin bus_swept False power_on world0))) = PRIMARY
   \<and> bmm150_addr (fst (snd (IMU_begin bus_swept False power_on world0))) = 0x14
   \<and> sweep_probed (snd (snd (IMU_begin bus_swept False power_on world0))) 0x14
   \<and> \<not> sweep_probed (snd (snd (IMU_begin bus_swept False power_on world0))) 0x15
   \<and> \<not> sweep_ran (snd (snd (IMU_begin bus_bridged False power_on world0)))"
proof -
  have h: "\<not> sweep_ran world0"
    by (simp add: example_defs sweep_ran_def)
  have m: "sweep_matched_at (snd (snd (IMU_begin bus_swept False power_on world0))) 0x14"
    by (simp add: model_defs example_defs sim_io sweep_matched_at_def)
  have n: "\<not> sweep_probed (snd (snd (IMU_begin bus_swept False power_on world0))) 0x15"
    by (simp add: model_defs example_defs sim_io sweep_probed_def)
  have d: "bmi160_addr (fst (discover_direct bus_swept False power_on world0)) \<noteq> 0"
    "mag_mode (fst (discover_direct bus_swept False power_on world0)) = NONE"
    "mag_mode (fst (scan_secondary bus_swept 0x10
        (fst (discover_direct bus_swept False power_on world0))
        (snd (discover_direct bus_swept False power_on world0)))) = NONE"
    by (simp_all add: model_defs example_defs sim_io)
  have e: "mag_mode (fst (scan_secondary bus_bridged 0x10
        (fst (discover_direct bus_bridged False power_on world0))
        (snd (discover_direct bus_bridged False power_on world0)))) = SECONDARY"
    by (simp add: model_defs example_defs sim_io)
  from sweep_runs_iff [OF h, of bus_swept False] d m
  have s: "sweep_ran (snd (snd (IMU_begin bus_swept False power_on world0)))"
    "mag_mode (fst (snd (IMU_begin bus_swept False power_on world0))) = PRIMARY"
    "bmm150_addr (fst (snd (IMU_begin bus_swept False power_on world0))) = 0x14"
    "\<forall>a. sweep_matched_at (snd (snd (IMU_begin bus_swept False power_on world0))) a \<longrightarrow> a = 0x14"
    "\<forall>x. x \<le> 0x7F \<and> (\<forall>m. sweep_matched_at (snd (snd (IMU_begin bus_swept False power_on world0))) m \<longrightarrow> x \<le> m)
       \<longrightarrow> sweep_probed (snd (snd (IMU_begin bus_swept False power_on world0))) x"
    by (auto simp: split_def Let_def)
  from s(4,5) have p: "sweep_probed (snd (snd (IMU_begin bus_swept False power_on world0))) 0x14"
    by auto
  from sweep_runs_iff [OF h, of bus_bridged False] e
  have b: "\<not> sweep_ran (snd (snd (IMU_begin bus_bridged False power_on world0)))"
    by (simp add: split_def Let_def)
  from h s(1,2,3) m p n b show ?thesis
    by simp
qed

text \<open>
  C2, as stated, fails: with a BMI160 alone on the bus, \<^verbatim>\<open>IMU_begin\<close> finds and
  configures the primary chip, finds no magnetometer, and returns false.
\<close>

theorem primary_chip_alone_not_initialized:
  "(let (r, st', w') = IMU_begin bus_bmi_only False power_on world0
    in bmi160_addr st' = 0x68 \<and> mag_mode st' = NONE \<and> bmm150_addr st' = 0
       \<and> \<not> r \<and> \<not> IMU_isInitialized st')"
  by (simp add: model_defs example_defs sim_io IMU_isInitialized_def)

text \<open>
  C2, amended. After \<^verbatim>\<open>IMU_begin\<close> has run discovery from power-on, the value it
  returns is the flag that \<^verbatim>\<open>IMU_isInitialized\<close> reports, and the flag follows the
  magnetometer alone: it is true when the search on the main bus found the
  magnetometer (with or without the primary chip), when the search through the BMI160
  found it, and when the sweep matched at a non-zero address; it is false when no
  magnetometer was found, in particular when only the primary chip was found.
\<close>

theorem begin_flag_follows_magnetometer:
  assumes "\<not> sweep_ran w"
  shows "(let (st3, w3) = discover_direct env dbg power_on w;
              (r, st', w') = IMU_begin env dbg power_on w
          in r = IMU_isInitialized st'
             \<and> (mag_mode st3 = PRIMARY \<longrightarrow> r)
             \<and> (mag_mode st' = SECONDARY \<longrightarrow> r)
             \<and> (\<forall>a. a \<noteq> 0 \<and> sweep_matched_at w' a \<longrightarrow> r)
             \<and> (mag_mode st' = NONE \<longrightarrow> \<not> r))"
proof -
  obtain st3 w3 where d: "discover_direct env dbg power_on w = (st3, w3)"
    by fastforce
  obtain st4 w4 where s: "scan_secondary env 0x10 st3 w3 = (st4, w4)"
    by fastforce
  obtain r st' w' where b: "IMU_begin env dbg power_on w = (r, st', w')"
    using prod_cases3 by blast
  from begin_outcomes [OF assms d s b] not_swept_not_matched [of w'] show ?thesis
    by (auto simp: d b IMU_isInitialized_def)
qed

theorem begin_flag_follows_magnetometer_witness:
  "\<not> sweep_ran world0
   \<and> fst (IMU_begin bus_direct False power_on world0)
   \<and> bmi160_addr (fst (snd (IMU_begin bus_direct False power_on world0))) = 0
   \<and> \<not> fst (IMU_begin bus_bmi_only False power_on world0)"
proof -
  have h: "\<not> sweep_ran world0"
    by (simp add: example_defs sweep_ran_def)
  have d: "mag_mode (fst (discover_direct bus_direct False power_on world0)) = PRIMARY"
    by (simp add: model_defs example_defs sim_io)
  have a: "bmi160_addr (fst (snd (IMU_begin bus_direct False power_on world0))) = 0"
    by (simp add: model_defs example_defs sim_io)
  have n: "mag_mode (fst (snd (IMU_begin bus_bmi_only False power_on world0))) = NONE"
    by (simp add: model_defs example_defs sim_io)
  show ?thesis
    using begin_flag_follows_magnetometer [OF h, of bus_direct False]
      begin_flag_follows_magnetometer [OF h, of bus_bmi_only False] h d a n
    by (auto simp: split_def Let_def)
qed

text \<open>
  C1. The claim: \<^verbatim>\<open>IMU_begin\<close> returns true exactly when some tier found a
  magnetometer. The sweep starts at address \<open>0x00\<close>, and the driver uses the address
  zero to mean that no magnetometer is known. On a bus where the probe of address
  \<open>0x00\<close> is answered with the identity \<open>0x32\<close>, with a BMI160 and no magnetometer
  at \<open>0x10\<close> to \<open>0x13\<close>, the sweep matches, the mode becomes Direct, and
  \<^verbatim>\<open>IMU_begin\<close> returns false.
\<close>

theorem general_call_match_returns_false:
  "(let (r, st', w') = IMU_begin bus_general_call False power_on world0
    in bmi160_addr st' = 0x68 \<and> sweep_matched_at w' 0x00 \<and> IMU_getMagMode st' = PRIMARY \<and> \<not> r)"
  by (simp add: model_defs example_defs sim_io sweep_matched_at_def IMU_getMagMode_def)

text \<open>
  C10. The claim: after \<^verbatim>\<open>IMU_begin\<close> the mode is other than \<^verbatim>\<open>NONE\<close> exactly
  when the magnetometer address is non-zero. On the same bus the sweep's match at
  address \<open>0x00\<close> leaves the mode Direct with a magnetometer address of zero and the
  driver not initialized.
\<close>

theorem general_call_match_inconsistent:
  "(let (r, st', w') = IMU_begin bus_general_call False power_on world0
    in sweep_matched_at w' 0x00 \<and> mag_mode st' = PRIMARY \<and> IMU_getMagMode st' \<noteq> NONE
       \<and> bmm150_addr st' = 0 \<and> \<not> initialized st')"
  by (simp add: model_defs example_defs sim_io sweep_matched_at_def IMU_getMagMode_def)

text \<open>
  Apart from a match of the sweep at address \<open>0x00\<close>, the topology variables are
  consistent after \<^verbatim>\<open>IMU_begin\<close>, and no other public operation changes them.
\<close>

lemma topology_consistent_after_begin:
  assumes "\<not> sweep_ran w"
    and "\<not> sweep_matched_at (snd (snd (IMU_begin env dbg power_on w))) 0"
  shows "topology_consistent (fst (snd (IMU_begin env dbg power_on w)))"
proof -
  obtain st3 w3 where d: "discover_direct env dbg power_on w = (st3, w3)"
    by fastforce
  obtain st4 w4 where s: "scan_secondary env 0x10 st3 w3 = (st4, w4)"
    by fastforce
  obtain r st' w' where b: "IMU_begin env dbg power_on w = (r, st', w')"
    using prod_cases3 by blast
  from begin_outcomes [OF assms(1) d s b] assms(2) ge_0x10_nonzero [of "bmm150_addr st'"]
  show ?thesis
    unfolding b topology_consistent_def by auto
qed

lemma topology_unchanged_by_other_calls:
  assumes "c \<noteq> Begin"
  shows "bmi160_addr (fst (exec env dbg c (st, out, w))) = bmi160_addr st
       \<and> bmm150_addr (fst (exec env dbg c (st, out, w))) = bmm150_addr st
       \<and> mag_mode (fst (exec env dbg c (st, out, w))) = mag_mode st
       \<and> initialized (fst (exec env dbg c (st, out, w))) = initialized st"
  using assms
  by (cases c)
    (simp_all add: split_def Let_def IMU_readDataWithFrequency_unfold IMU_setAccelRange_def
      IMU_setGyroRange_def)

section \<open>Conversion factors across the public operations\<close>

lemma factors_consistent_frame [simp]:
  "factors_consistent (st\<lparr>bmi160_addr := b\<rparr>) = factors_consistent st"
  "factors_consistent (st\<lparr>bmm150_addr := m\<rparr>) = factors_consistent st"
  "factors_consistent (st\<lparr>mag_mode := md\<rparr>) = factors_consistent st"
  "factors_consistent (st\<lparr>initialized := i\<rparr>) = factors_consistent st"
  by (simp_all add: factors_consistent_def)

lemma factors_consistent_find_bmi160:
  "factors_consistent (fst (find_bmi160 env cs st w)) = factors_consistent st"
  using find_bmi160_result [of env cs st w] by auto

lemma factors_consistent_scan_primary:
  "factors_consistent (fst (scan_primary env a st w)) = factors_consistent st"
  using scan_primary_result [of env a st w] by auto

lemma factors_consistent_scan_secondary:
  "factors_consistent (fst (scan_secondary env a st w)) = factors_consistent st"
  using scan_secondary_result [of env a st w] by auto

lemma scan_all_state:
  "fst (scan_all env a st w) = st
   \<or> (\<exists>m. fst (scan_all env a st w) = st\<lparr>bmm150_addr := m, mag_mode := PRIMARY\<rparr>)"
proof (induction env a st w rule: scan_all.induct)
  case (1 env addr st w)
  show ?case
  proof (cases "addr \<le> 0x7F")
    case False
    then show ?thesis
      by (simp add: scan_all.simps [of env addr])
  next
    case le: True
    obtain r w1 where i: "i2c_device_exists env addr BMM150_CHIP_ID w = (r, w1)"
      by fastforce
    show ?thesis
    proof (cases "r = Some 0x32")
      case True
      with le i show ?thesis
        by (auto simp: scan_all.simps [of env addr])
    next
      case False
      with le i "1.IH" [OF le i [symmetric] refl False] show ?thesis
        by (simp add: scan_all.simps [of env addr])
    qed
  qed
qed

lemma factors_consistent_scan_all:
  "factors_consistent (fst (scan_all env a st w)) = factors_consistent st"
  using scan_all_state [of env a st w] by auto

lemma factors_consistent_discover_direct:
  "factors_consistent st \<Longrightarrow> factors_consistent (fst (discover_direct env dbg st w))"
  by (simp add: discover_direct_def Let_def split_def factors_consistent_scan_primary
      setup_bmi160_fst factors_consistent_find_bmi160 update_conversion_factors_consistent)

lemma factors_consistent_IMU_begin:
  "factors_consistent st \<Longrightarrow> factors_consistent (fst (snd (IMU_begin env dbg st w)))"
  by (simp add: IMU_begin_def Let_def split_def factors_consistent_scan_all
      factors_consistent_scan_secondary factors_consistent_discover_direct)

lemma factors_consistent_IMU_readDataWithFrequency:
  "factors_consistent (fst (snd (IMU_readDataWithFrequency env interval out st w))) =
     factors_consistent st"
  by (simp add: IMU_readDataWithFrequency_unfold Let_def split_def factors_consistent_def)

lemma IMU_setAccelRange_factor:
  assumes "bmi160_addr st \<noteq> 0" and "acc_lsb_doc r \<noteq> None"
  shows "acc_range (config (fst (IMU_setAccelRange env r st w))) = r"
    and "acc_lsb_doc r = Some (ACC_LSB (fst (IMU_setAccelRange env r st w)))"
  using assms update_conversion_factors_acc [of "st\<lparr>config := (config st)\<lparr>acc_range := r\<rparr>\<rparr>"]
  by (simp_all add: IMU_setAccelRange_def split_def)

lemma IMU_setGyroRange_factor:
  assumes "bmi160_addr st \<noteq> 0" and "gyr_lsb_doc r \<noteq> None"
  shows "gyr_range (config (fst (IMU_setGyroRange env r st w))) = r"
    and "gyr_lsb_doc r = Some (GYR_LSB (fst (IMU_setGyroRange env r st w)))"
  using assms update_conversion_factors_gyr [of "st\<lparr>config := (config st)\<lparr>gyr_range := r\<rparr>\<rparr>"]
  by (simp_all add: IMU_setGyroRange_def split_def)

lemma factors_consistent_IMU_setAccelRange:
  assumes "factors_consistent st" and "acc_lsb_doc r \<noteq> None"
  shows "factors_consistent (fst (IMU_setAccelRange env r st w))"
proof (cases "bmi160_addr st = 0")
  case True
  with assms show ?thesis
    by (simp add: IMU_setAccelRange_def)
next
  case False
  let ?s = "st\<lparr>config := (config st)\<lparr>acc_range := r\<rparr>\<rparr>"
  from assms(1) have "gyr_lsb_doc (gyr_range (config ?s)) \<noteq> None"
    by (simp add: factors_consistent_def)
  with assms(2) False update_conversion_factors_acc [of ?s] update_conversion_factors_gyr [of ?s]
  show ?thesis
    by (simp add: IMU_setAccelRange_def split_def factors_consistent_def)
qed

lemma factors_consistent_IMU_setGyroRange:
  assumes "factors_consistent st" and "gyr_lsb_doc r \<noteq> None"
  shows "factors_consistent (fst (IMU_setGyroRange env r st w))"
proof (cases "bmi160_addr st = 0")
  case True
  with assms show ?thesis
    by (simp add: IMU_setGyroRange_def)
next
  case False
  let ?s = "st\<lparr>config := (config st)\<lparr>gyr_range := r\<rparr>\<rparr>"
  from assms(1) have "acc_lsb_doc (acc_range (config ?s)) \<noteq> None"
    by (simp add: factors_consistent_def)
  with assms(2) False update_conversion_factors_acc [of ?s] update_conversion_factors_gyr [of ?s]
  show ?thesis
    by (simp add: IMU_setGyroRange_def split_def factors_consistent_def)
qed

lemma factors_consistent_exec:
  assumes "factors_consistent (fst s)" and "valid_call c"
  shows "factors_consistent (fst (exec env dbg c s))"
proof -
  obtain st out w where s: "s = (st, out, w)"
    using prod_cases3 by blast
  show ?thesis
    using assms unfolding s
    by (cases c)
      (simp_all add: split_def Let_def factors_consistent_IMU_begin
        factors_consistent_IMU_readDataWithFrequency factors_consistent_IMU_setAccelRange
        factors_consistent_IMU_setGyroRange)
qed

lemma factors_consistent_run:
  "factors_consistent (fst s) \<Longrightarrow> list_all valid_call cs \<Longrightarrow>
   factors_consistent (fst (run env dbg cs s))"
  by (induction cs arbitrary: s) (simp_all add: factors_consistent_exec)

lemma factors_consistent_power_on: "factors_consistent power_on"
  by (simp add: factors_consistent_def power_on_def acc_lsb_doc_def gyr_lsb_doc_def)


text \<open>
  C9. With the primary chip present, \<^verbatim>\<open>IMU_setAccelRange\<close> with a valid code leaves
  that code configured and \<^verbatim>\<open>ACC_LSB\<close> equal to the documented factor of the code,
  and \<^verbatim>\<open>IMU_setGyroRange\<close> does the same for \<^verbatim>\<open>GYR_LSB\<close>. The factors are
  consistent with the configured codes at power-on, and they stay consistent through
  every sequence of public operations whose range codes are valid.
\<close>

theorem conversion_factors_follow_ranges:
  "(bmi160_addr st \<noteq> 0 \<and> acc_lsb_doc r \<noteq> None \<longrightarrow>
      acc_range (config (fst (IMU_setAccelRange env r st w))) = r
      \<and> acc_lsb_doc r = Some (ACC_LSB (fst (IMU_setAccelRange env r st w))))
   \<and> (bmi160_addr st \<noteq> 0 \<and> gyr_lsb_doc r \<noteq> None \<longrightarrow>
      gyr_range (config (fst (IMU_setGyroRange env r st w))) = r
      \<and> gyr_lsb_doc r = Some (GYR_LSB (fst (IMU_setGyroRange env r st w))))
   \<and> factors_consistent power_on
   \<and> (factors_consistent st \<and> list_all valid_call calls \<longrightarrow>
        factors_consistent (fst (run env dbg calls (st, out, w))))"
  using IMU_setAccelRange_factor [of st r env w] IMU_setGyroRange_factor [of st r env w]
    factors_consistent_power_on factors_consistent_run [of "(st, out, w)" calls env dbg]
  by simp

theorem conversion_factors_follow_ranges_witness:
  "ACC_LSB (fst (IMU_setAccelRange bus_bmi_only 0x0C st_bmi world0)) = 2048
   \<and> GYR_LSB (fst (IMU_setGyroRange bus_bmi_only 0x04 st_bmi world0)) = 262144 / 1000
   \<and> factors_consistent (fst (run bus_bmi_only False
        [Begin, SetAccelRange 0x03, ReadData, SetGyroRange 0x02, ReadDataWithFrequency 20]
        (power_on, zero_sample, world0)))"
proof -
  have a: "bmi160_addr st_bmi \<noteq> 0" "acc_lsb_doc 0x0C = Some 2048"
    "gyr_lsb_doc 0x04 = Some (262144 / 1000)"
    by (simp_all add: st_bmi_def power_on_def acc_lsb_doc_def gyr_lsb_doc_def)
  have v: "list_all valid_call
      [Begin, SetAccelRange 0x03, ReadData, SetGyroRange 0x02, ReadDataWithFrequency 20]"
    by (simp add: acc_lsb_doc_def gyr_lsb_doc_def)
  show ?thesis
    using conversion_factors_follow_ranges [of st_bmi "0x0C" bus_bmi_only world0]
      conversion_factors_follow_ranges [of st_bmi "0x04" bus_bmi_only world0]
      conversion_factors_follow_ranges [of power_on _ bus_bmi_only world0
        "[Begin, SetAccelRange 0x03, ReadData, SetGyroRange 0x02, ReadDataWithFrequency 20]"
        False zero_sample]
      a v
    by simp
qed

end
